theory Spec2Isabelle
  imports Main "HOL-Library.AList"
begin

section \<open>The WebSocket connection manager of the AgentFlow backend\<close>

text \<open>
  A shallow embedding of \<^verbatim>\<open>backend/app/core/websocket_manager.py\<close> (class
  \<^verbatim>\<open>WebSocketManager\<close>) and of the two receive loops of \<^verbatim>\<open>backend/main.py\<close>.

  \<^item> A Python \<^verbatim>\<open>dict\<close> is a map \<open>'k \<rightharpoonup> 'v\<close>: \<^verbatim>\<open>d[k] = v\<close> is \<open>d(k \<mapsto> v)\<close>, \<^verbatim>\<open>del d[k]\<close>
    and \<^verbatim>\<open>d.pop(k, None)\<close> are \<open>d(k := None)\<close>, \<^verbatim>\<open>d.get(k)\<close> and \<^verbatim>\<open>k in d\<close> read \<open>d k\<close>.
    Two dicts are association lists, because the code depends on their order:
    \<^verbatim>\<open>active_connections\<close>, which is searched for the first entry with a given handle, and
    a message payload, which is rendered as JSON text (\<open>AList.update\<close>, \<open>AList.delete\<close>,
    \<open>map_of\<close>).
  \<^item> A Python \<^verbatim>\<open>set\<close> is a list read through \<open>set\<close>: \<^verbatim>\<open>s.add(x)\<close> is \<open>List.insert\<close>,
    \<^verbatim>\<open>s.discard(x)\<close> is \<open>removeAll\<close>, \<^verbatim>\<open>not s\<close> is \<open>s = []\<close>. The order in which Python
    iterates a set is unspecified; the list order stands for it, and every theorem below
    holds for every order.
  \<^item> The manager is mutated in place; the model passes it explicitly, inside a \<open>world\<close>
    that also records what the code does to the outside: transport writes and log records.
  \<^item> A raised exception is the \<open>Inl\<close> branch of the outcome; the world returned with it is
    the one the exception leaves behind.
  \<^item> \<^verbatim>\<open>uuid.uuid4()\<close>, \<^verbatim>\<open>datetime.utcnow()\<close> and the success of \<^verbatim>\<open>websocket.send_text\<close>
    belong to the environment: they are parameters (\<open>cid\<close>, \<open>now\<close>, \<open>wfail\<close>). A write
    that fails raises an exception other than \<^verbatim>\<open>WebSocketDisconnect\<close>; \<^verbatim>\<open>accept\<close> succeeds.
  \<^item> Each operation runs from start to end on its own: the interleaving of coroutines at
    the \<^verbatim>\<open>await\<close> points is outside the model.
\<close>

subsection \<open>Data\<close>

type_synonym conn_id = string
type_synonym channel = string

text \<open>A transport handle. Starlette compares connections by object identity.\<close>

datatype websocket = WebSocket (handle: nat) (client_host: "string option")

text \<open>Message payloads are JSON values; \<^verbatim>\<open>Dict[str, Any]\<close> is a JSON object.\<close>

datatype json = JNull | JBool bool | JNum int | JStr string
  | JArr "json list" | JObj "(string \<times> json) list"

type_synonym dict = "(string \<times> json) list"

record metadata =
  connected_at :: string
  user_id :: "string option"
  ip_address :: "string option"

record WebSocketManager =
  active_connections :: "(conn_id \<times> websocket) list"
  channel_subscriptions :: "channel \<rightharpoonup> conn_id list"
  connection_metadata :: "conn_id \<rightharpoonup> metadata"
  connection_channels :: "conn_id \<rightharpoonup> channel list"

datatype exn = KeyError string | AttributeError | JSONDecodeError | SendFailed | TypeError

datatype pyval = PyNone | PyBool bool | PyStr string

datatype loglevel = Debug | Info | Warning | Error

text \<open>
  \<open>Accept ws\<close>: \<^verbatim>\<open>await ws.accept()\<close>. \<open>SendText who ws payload ok\<close>: one call
  \<^verbatim>\<open>await ws.send_text(json.dumps(payload))\<close>, made on behalf of identity \<open>who\<close> when the
  caller holds one; \<open>ok\<close> is false when the call raised. \<open>Log level event fields\<close>: one
  record of the structured logger.
\<close>

datatype event =
    Accept websocket
  | SendText "conn_id option" websocket dict bool
  | Log loglevel string "string list"

record world =
  mgr :: WebSocketManager
  trace :: "event list"

definition emit :: "event list \<Rightarrow> world \<Rightarrow> world" where
  "emit evs w = w\<lparr>trace := trace w @ evs\<rparr>"

text \<open>\<^verbatim>\<open>WebSocketManager.__init__\<close>\<close>

definition init :: WebSocketManager where
  "init = \<lparr>active_connections = [], channel_subscriptions = Map.empty,
           connection_metadata = Map.empty, connection_channels = Map.empty\<rparr>"

definition init_world :: world where
  "init_world = \<lparr>mgr = init, trace = []\<rparr>"

text \<open>Truth value of an optional string: \<^verbatim>\<open>None\<close> and \<^verbatim>\<open>""\<close> are false.\<close>

fun truthy :: "string option \<Rightarrow> bool" where
  "truthy None = False"
| "truthy (Some s) = (s \<noteq> [])"

text \<open>
  The loop \<^verbatim>\<open>for conn_id, ws in self.active_connections.items(): if ws == websocket: ... break\<close>
  of \<^verbatim>\<open>disconnect\<close>, \<^verbatim>\<open>subscribe\<close> and \<^verbatim>\<open>broadcast_to_channel\<close>.
\<close>

fun find_connection_id :: "(conn_id \<times> websocket) list \<Rightarrow> websocket \<Rightarrow> conn_id option" where
  "find_connection_id [] w = None"
| "find_connection_id ((conn, ws) # rest) w =
     (if ws = w then Some conn else find_connection_id rest w)"

text \<open>
  A method call on the object a dict holds under a key, such as
  \<^verbatim>\<open>self.channel_subscriptions[channel].add(connection_id)\<close>; every use below is on a key
  known to be present.
\<close>

definition mutate :: "'k \<Rightarrow> ('v \<Rightarrow> 'v) \<Rightarrow> ('k \<rightharpoonup> 'v) \<Rightarrow> ('k \<rightharpoonup> 'v)" where
  "mutate k f d = (case d k of None \<Rightarrow> d | Some v \<Rightarrow> d(k \<mapsto> f v))"

subsection \<open>Removing a connection\<close>

text \<open>
  \<^verbatim>\<open>_remove_connection\<close>, lines 103-128. The first loop discards the identity from every
  subscriber set and collects the channels whose set is left empty (here: the test that
  tells them); the second loop deletes the entries of the collected channels.
\<close>

definition discard_everywhere :: "conn_id \<Rightarrow> (channel \<rightharpoonup> conn_id list) \<Rightarrow> (channel \<rightharpoonup> conn_id list)" where
  "discard_everywhere connection_id subs =
     (\<lambda>channel. map_option (removeAll connection_id) (subs channel))"

definition channels_to_cleanup :: "(channel \<rightharpoonup> conn_id list) \<Rightarrow> channel \<Rightarrow> bool" where
  "channels_to_cleanup subs channel = (subs channel = Some [])"

definition delete_channels :: "(channel \<Rightarrow> bool) \<Rightarrow> (channel \<rightharpoonup> conn_id list) \<Rightarrow> (channel \<rightharpoonup> conn_id list)" where
  "delete_channels cleanup subs = (\<lambda>channel. if cleanup channel then None else subs channel)"

definition remove_from_manager :: "conn_id \<Rightarrow> WebSocketManager \<Rightarrow> WebSocketManager" where
  "remove_from_manager connection_id m =
     (let subs = discard_everywhere connection_id (channel_subscriptions m)
      in \<lparr>active_connections =
            (if map_of (active_connections m) connection_id \<noteq> None
             then AList.delete connection_id (active_connections m)
             else active_connections m),
          channel_subscriptions = delete_channels (channels_to_cleanup subs) subs,
          connection_metadata = (connection_metadata m)(connection_id := None),
          connection_channels = (connection_channels m)(connection_id := None)\<rparr>)"

definition remove_connection :: "conn_id \<Rightarrow> world \<Rightarrow> world" where
  "remove_connection connection_id w =
     emit [Log Info ''WebSocket connection removed'' [connection_id]]
       (w\<lparr>mgr := remove_from_manager connection_id (mgr w)\<rparr>)"

text \<open>\<^verbatim>\<open>disconnect\<close>, lines 77-92, and \<^verbatim>\<open>disconnect_by_id\<close>, lines 94-101.\<close>

definition disconnect :: "websocket \<Rightarrow> world \<Rightarrow> world" where
  "disconnect websocket w =
     (let connection_id = find_connection_id (active_connections (mgr w)) websocket
      in if truthy connection_id
         then (case connection_id of Some c \<Rightarrow> remove_connection c w | None \<Rightarrow> w)
         else w)"

definition disconnect_by_id :: "conn_id \<Rightarrow> world \<Rightarrow> world" where
  "disconnect_by_id connection_id w = remove_connection connection_id w"

subsection \<open>Subscriptions\<close>

text \<open>
  \<^verbatim>\<open>subscribe_connection\<close>, lines 130-148. Line 142 indexes \<^verbatim>\<open>connection_channels\<close>
  with the identity and raises \<^verbatim>\<open>KeyError\<close> when it has no entry; lines 138-141 have
  run by then.
\<close>

definition subscribe_connection :: "conn_id \<Rightarrow> channel \<Rightarrow> world \<Rightarrow> world \<times> (exn + pyval)" where
  "subscribe_connection connection_id channel w =
     (let m = mgr w;
          subs0 = (if channel_subscriptions m channel = None
                   then (channel_subscriptions m)(channel \<mapsto> [])
                   else channel_subscriptions m);
          subs1 = mutate channel (List.insert connection_id) subs0;
          m1 = m\<lparr>channel_subscriptions := subs1\<rparr>
      in case connection_channels m1 connection_id of
           None \<Rightarrow> (w\<lparr>mgr := m1\<rparr>, Inl (KeyError connection_id))
         | Some _ \<Rightarrow>
             (emit [Log Debug ''Connection subscribed to channel'' [connection_id, channel]]
                (w\<lparr>mgr := m1\<lparr>connection_channels :=
                      mutate connection_id (List.insert channel) (connection_channels m1)\<rparr>\<rparr>),
              Inr PyNone))"

text \<open>\<^verbatim>\<open>unsubscribe_connection\<close>, lines 150-164.\<close>

definition unsubscribe_connection :: "conn_id \<Rightarrow> channel \<Rightarrow> world \<Rightarrow> world \<times> (exn + pyval)" where
  "unsubscribe_connection connection_id channel w =
     (let m = mgr w;
          subs = (if channel_subscriptions m channel \<noteq> None
                  then (let subs0 = mutate channel (removeAll connection_id) (channel_subscriptions m)
                        in if subs0 channel = Some [] then subs0(channel := None) else subs0)
                  else channel_subscriptions m);
          chans = (if connection_channels m connection_id \<noteq> None
                   then mutate connection_id (removeAll channel) (connection_channels m)
                   else connection_channels m)
      in (w\<lparr>mgr := m\<lparr>channel_subscriptions := subs, connection_channels := chans\<rparr>\<rparr>, Inr PyNone))"

text \<open>
  The loop \<^verbatim>\<open>for channel in channels: await self.subscribe_connection(...)\<close> of
  \<^verbatim>\<open>subscribe\<close>: an exception ends it.
\<close>

fun subscribe_each :: "conn_id \<Rightarrow> channel list \<Rightarrow> world \<Rightarrow> world \<times> (exn + pyval)" where
  "subscribe_each connection_id [] w = (w, Inr PyNone)"
| "subscribe_each connection_id (channel # channels) w =
     (case subscribe_connection connection_id channel w of
        (w', Inl e) \<Rightarrow> (w', Inl e)
      | (w', Inr _) \<Rightarrow> subscribe_each connection_id channels w')"

text \<open>\<^verbatim>\<open>subscribe\<close>, lines 166-193.\<close>

definition subscribe :: "string \<Rightarrow> (websocket \<Rightarrow> bool) \<Rightarrow> websocket \<Rightarrow> channel list \<Rightarrow> world \<Rightarrow> world \<times> (exn + pyval)" where
  "subscribe now wfail websocket channels w =
     (let connection_id = find_connection_id (active_connections (mgr w)) websocket
      in case connection_id of
           None \<Rightarrow> (emit [Log Warning ''Attempted to subscribe unknown WebSocket connection'' []] w, Inr PyNone)
         | Some c \<Rightarrow>
            if \<not> truthy connection_id
            then (emit [Log Warning ''Attempted to subscribe unknown WebSocket connection'' []] w, Inr PyNone)
            else (case subscribe_each c channels w of
                    (w', Inl e) \<Rightarrow> (w', Inl e)
                  | (w', Inr _) \<Rightarrow>
                      (let confirm = [(''type'', JStr ''subscription_confirmed''),
                                      (''channels'', JArr (map JStr channels)),
                                      (''timestamp'', JStr now)]
                       in (emit [SendText (Some c) websocket confirm (\<not> wfail websocket)] w',
                           if wfail websocket then Inl SendFailed else Inr PyNone))))"

text \<open>\<^verbatim>\<open>connect\<close>, lines 35-75. \<open>cid\<close> is the value of \<^verbatim>\<open>str(uuid.uuid4())\<close>.\<close>

definition connect :: "conn_id \<Rightarrow> string \<Rightarrow> (websocket \<Rightarrow> bool) \<Rightarrow> websocket \<Rightarrow> channel option \<Rightarrow> world \<Rightarrow> world \<times> (exn + pyval)" where
  "connect cid now wfail websocket initial_channel w =
     (let w0 = emit [Accept websocket] w;
          m = mgr w0;
          m1 = m\<lparr>active_connections := AList.update cid websocket (active_connections m),
                 connection_metadata := (connection_metadata m)(cid \<mapsto>
                    \<lparr>connected_at = now, user_id = None, ip_address = client_host websocket\<rparr>),
                 connection_channels := (connection_channels m)(cid \<mapsto> [])\<rparr>;
          w1 = w0\<lparr>mgr := m1\<rparr>;
          r = (case initial_channel of
                 None \<Rightarrow> (w1, Inr PyNone)
               | Some ch \<Rightarrow> if truthy initial_channel then subscribe_connection cid ch w1
                            else (w1, Inr PyNone))
      in case r of
           (w2, Inl e) \<Rightarrow> (w2, Inl e)
         | (w2, Inr _) \<Rightarrow>
             (let welcome = [(''type'', JStr ''connection_established''),
                             (''connection_id'', JStr cid),
                             (''timestamp'', JStr now)]
              in (emit [Log Info ''WebSocket connection established'' [cid],
                        SendText (Some cid) websocket welcome (\<not> wfail websocket)] w2,
                  if wfail websocket then Inl SendFailed else Inr (PyStr cid))))"

subsection \<open>Delivery\<close>

text \<open>
  The fan-out loop of \<^verbatim>\<open>broadcast_to_channel\<close>, lines 223-238, over the subscriber set
  of the channel. It reads the registry and appends to \<^verbatim>\<open>failed_connections\<close>; it does
  not change the manager. The result is the events of the loop and \<^verbatim>\<open>failed_connections\<close>.
  \<open>text\<close> stands for \<^verbatim>\<open>json.dumps(message)\<close>, computed once before the loop.
\<close>

fun fan_out :: "conn_id option \<Rightarrow> (conn_id \<times> websocket) list \<Rightarrow> (websocket \<Rightarrow> bool) \<Rightarrow> channel
    \<Rightarrow> dict \<Rightarrow> conn_id list \<Rightarrow> event list \<times> conn_id list" where
  "fan_out exclude_id act wfail channel text [] = ([], [])"
| "fan_out exclude_id act wfail channel text (connection_id # rest) =
     (if Some connection_id = exclude_id then fan_out exclude_id act wfail channel text rest
      else case map_of act connection_id of
             None \<Rightarrow> fan_out exclude_id act wfail channel text rest
           | Some websocket \<Rightarrow>
               (let (evs, failed) = fan_out exclude_id act wfail channel text rest
                in if wfail websocket
                   then (SendText (Some connection_id) websocket text False
                           # Log Error ''Failed to send message to WebSocket'' [connection_id, channel]
                           # evs,
                         connection_id # failed)
                   else (SendText (Some connection_id) websocket text True # evs, failed)))"

text \<open>
  \<^verbatim>\<open>broadcast_to_channel\<close>, lines 195-249. A handle is always true in \<^verbatim>\<open>if exclude:\<close>,
  so the search runs whenever a handle is given. The second component of the result is the
  caller's \<^verbatim>\<open>message\<close> dict after the call: \<^verbatim>\<open>message.update\<close> changes the caller's
  object. The function has no \<^verbatim>\<open>return\<close> with a value. The closing \<^verbatim>\<open>logger.debug\<close>
  call evaluates \<^verbatim>\<open>len(self.channel_subscriptions[channel])\<close>, which raises \<^verbatim>\<open>KeyError\<close>
  when the clean-up has deleted the channel.
\<close>

definition broadcast_to_channel :: "string \<Rightarrow> (websocket \<Rightarrow> bool) \<Rightarrow> channel \<Rightarrow> dict \<Rightarrow> websocket option
    \<Rightarrow> world \<Rightarrow> world \<times> dict \<times> (exn + pyval)" where
  "broadcast_to_channel now wfail channel message exclude w =
     (case channel_subscriptions (mgr w) channel of
        None \<Rightarrow> (w, message, Inr PyNone)
      | Some subscribers \<Rightarrow>
          (let exclude_id = (case exclude of
                               None \<Rightarrow> None
                             | Some ws \<Rightarrow> find_connection_id (active_connections (mgr w)) ws);
               message' = AList.update ''timestamp'' (JStr now)
                            (AList.update ''channel'' (JStr channel) message);
               (evs, failed_connections) =
                  fan_out exclude_id (active_connections (mgr w)) wfail channel message' subscribers;
               w1 = emit evs w;
               w2 = fold remove_connection failed_connections w1
           in case channel_subscriptions (mgr w2) channel of
                None \<Rightarrow> (w2, message', Inl (KeyError channel))
              | Some _ \<Rightarrow>
                  (emit [Log Debug ''Message broadcasted to channel'' [channel]] w2,
                   message', Inr PyNone)))"

text \<open>\<^verbatim>\<open>send_to_connection\<close>, lines 251-278.\<close>

definition send_to_connection :: "string \<Rightarrow> (websocket \<Rightarrow> bool) \<Rightarrow> conn_id \<Rightarrow> dict
    \<Rightarrow> world \<Rightarrow> world \<times> dict \<times> (exn + pyval)" where
  "send_to_connection now wfail connection_id message w =
     (case map_of (active_connections (mgr w)) connection_id of
        None \<Rightarrow>
          (emit [Log Warning ''Attempted to send message to unknown connection'' [connection_id]] w,
           message, Inr (PyBool False))
      | Some websocket \<Rightarrow>
          (let message' = AList.update ''timestamp'' (JStr now) message
           in if wfail websocket
              then (remove_connection connection_id
                      (emit [SendText (Some connection_id) websocket message' False,
                             Log Error ''Failed to send message to connection'' [connection_id]] w),
                    message', Inr (PyBool False))
              else (emit [SendText (Some connection_id) websocket message' True] w,
                    message', Inr (PyBool True))))"

subsection \<open>The receive loops of main.py\<close>

text \<open>
  What one turn of \<^verbatim>\<open>data = await websocket.receive_text(); message = json.loads(data)\<close>
  yields: the peer has gone (\<^verbatim>\<open>WebSocketDisconnect\<close>), the text is not JSON
  (\<^verbatim>\<open>json.loads\<close> raises \<^verbatim>\<open>JSONDecodeError\<close>), the text is JSON but not an object (no
  \<^verbatim>\<open>get\<close> or \<^verbatim>\<open>update\<close> method: \<^verbatim>\<open>AttributeError\<close>), or it is an object.
\<close>

datatype 'a inbound = Disconnected | NotJson | NotObject | Object 'a

text \<open>
  What \<^verbatim>\<open>message.get("channels", [])\<close> can be, by what \<^verbatim>\<open>subscribe\<close> does with it at
  \<^verbatim>\<open>for channel in channels\<close>: a list, whose elements are channel names or values that
  cannot be hashed (a nested list or object: \<^verbatim>\<open>channel not in self.channel_subscriptions\<close>
  raises \<^verbatim>\<open>TypeError\<close>); a string, iterated character by character; an object, iterated
  over its keys; or a value that cannot be iterated (\<^verbatim>\<open>null\<close>, a number, a boolean:
  \<^verbatim>\<open>TypeError\<close>). An absent field is the empty list. The elements of a list are strings,
  lists or objects: a number, a boolean or \<^verbatim>\<open>null\<close> as an element would become a
  dictionary key that is not a string, which a manager keyed by strings does not hold.
\<close>

datatype element = Name channel | NestedList "json list" | NestedObject dict

datatype channels_field =
    Listed "element list"
  | Text string
  | Keyed dict
  | NotIterable json

text \<open>
  The objects \<^verbatim>\<open>websocket_endpoint\<close> tells apart by \<^verbatim>\<open>message.get("type")\<close>: a subscribe
  request with its \<^verbatim>\<open>channels\<close> field, a ping with its \<^verbatim>\<open>message.get("timestamp")\<close>,
  anything else.
\<close>

datatype request = SubscribeReq channels_field | PingReq json | OtherReq

text \<open>The sequence \<^verbatim>\<open>for channel in channels\<close> runs over, or the exception it raises.\<close>

fun elements_of :: "channels_field \<Rightarrow> exn + element list" where
  "elements_of (Listed es) = Inr es"
| "elements_of (Text s) = Inr (map (\<lambda>c. Name [c]) s)"
| "elements_of (Keyed d) = Inr (map (\<lambda>p. Name (fst p)) d)"
| "elements_of (NotIterable v) = Inl TypeError"

text \<open>The field as \<^verbatim>\<open>json.dumps\<close> renders it in the confirmation.\<close>

fun element_json :: "element \<Rightarrow> json" where
  "element_json (Name c) = JStr c"
| "element_json (NestedList vs) = JArr vs"
| "element_json (NestedObject d) = JObj d"

fun field_json :: "channels_field \<Rightarrow> json" where
  "field_json (Listed es) = JArr (map element_json es)"
| "field_json (Text s) = JStr s"
| "field_json (Keyed d) = JObj d"
| "field_json (NotIterable v) = v"

text \<open>
  The loop of \<^verbatim>\<open>subscribe\<close>, lines 185-186, on such elements: a name is subscribed; a
  value that cannot be hashed raises at line 138, before anything is changed for it.
\<close>

fun subscribe_elements :: "conn_id \<Rightarrow> element list \<Rightarrow> world \<Rightarrow> world \<times> (exn + pyval)" where
  "subscribe_elements connection_id [] w = (w, Inr PyNone)"
| "subscribe_elements connection_id (Name channel # rest) w =
     (case subscribe_connection connection_id channel w of
        (w', Inl e) \<Rightarrow> (w', Inl e)
      | (w', Inr _) \<Rightarrow> subscribe_elements connection_id rest w')"
| "subscribe_elements connection_id (NestedList vs # rest) w = (w, Inl TypeError)"
| "subscribe_elements connection_id (NestedObject d # rest) w = (w, Inl TypeError)"

text \<open>
  \<^verbatim>\<open>subscribe\<close>, lines 166-193, as \<^verbatim>\<open>websocket_endpoint\<close> calls it at line 146: with
  whatever the message holds under \<^verbatim>\<open>channels\<close>.
\<close>

definition subscribe_untyped :: "string \<Rightarrow> (websocket \<Rightarrow> bool) \<Rightarrow> websocket \<Rightarrow> channels_field
    \<Rightarrow> world \<Rightarrow> world \<times> (exn + pyval)" where
  "subscribe_untyped now wfail websocket channels w =
     (let connection_id = find_connection_id (active_connections (mgr w)) websocket
      in case connection_id of
           None \<Rightarrow> (emit [Log Warning ''Attempted to subscribe unknown WebSocket connection'' []] w, Inr PyNone)
         | Some c \<Rightarrow>
            if \<not> truthy connection_id
            then (emit [Log Warning ''Attempted to subscribe unknown WebSocket connection'' []] w, Inr PyNone)
            else (case elements_of channels of
                    Inl e \<Rightarrow> (w, Inl e)
                  | Inr es \<Rightarrow>
                     (case subscribe_elements c es w of
                        (w', Inl e) \<Rightarrow> (w', Inl e)
                      | (w', Inr _) \<Rightarrow>
                          (let confirm = [(''type'', JStr ''subscription_confirmed''),
                                          (''channels'', field_json channels),
                                          (''timestamp'', JStr now)]
                           in (emit [SendText (Some c) websocket confirm (\<not> wfail websocket)] w',
                               if wfail websocket then Inl SendFailed else Inr PyNone)))))"

datatype status = Running | Finished | Crashed exn

text \<open>
  One turn of the loop of \<^verbatim>\<open>websocket_endpoint\<close>, lines 139-154. Both handlers end the
  loop and call \<^verbatim>\<open>disconnect\<close>; \<^verbatim>\<open>except Exception\<close> logs first.
\<close>

definition websocket_endpoint_step :: "string \<Rightarrow> (websocket \<Rightarrow> bool) \<Rightarrow> websocket \<Rightarrow> request inbound
    \<Rightarrow> world \<Rightarrow> world \<times> status" where
  "websocket_endpoint_step now wfail websocket inb w =
     (let on_exception = (\<lambda>w'. (disconnect websocket (emit [Log Error ''WebSocket error'' []] w'), Finished))
      in case inb of
           Disconnected \<Rightarrow> (disconnect websocket w, Finished)
         | NotJson \<Rightarrow> on_exception w
         | NotObject \<Rightarrow> on_exception w
         | Object (SubscribeReq channels) \<Rightarrow>
             (case subscribe_untyped now wfail websocket channels w of
                (w', Inl e) \<Rightarrow> on_exception w'
              | (w', Inr _) \<Rightarrow> (w', Running))
         | Object (PingReq ts) \<Rightarrow>
             (let pong = [(''type'', JStr ''pong''), (''timestamp'', ts)];
                  w' = emit [SendText None websocket pong (\<not> wfail websocket)] w
              in if wfail websocket then on_exception w' else (w', Running))
         | Object OtherReq \<Rightarrow> (w, Running))"

text \<open>
  One turn of the loop of \<^verbatim>\<open>workflow_websocket\<close>, lines 160-173. Only
  \<^verbatim>\<open>WebSocketDisconnect\<close> is handled; any other exception leaves the handler. A parsed
  value that is not an object reaches \<^verbatim>\<open>message.update\<close> when the channel has an entry.
\<close>

definition workflow_websocket_step :: "string \<Rightarrow> (websocket \<Rightarrow> bool) \<Rightarrow> websocket \<Rightarrow> string \<Rightarrow> dict inbound
    \<Rightarrow> world \<Rightarrow> world \<times> status" where
  "workflow_websocket_step now wfail websocket workflow_id inb w =
     (let channel = ''workflow:'' @ workflow_id
      in case inb of
           Disconnected \<Rightarrow> (disconnect websocket w, Finished)
         | NotJson \<Rightarrow> (w, Crashed JSONDecodeError)
         | NotObject \<Rightarrow>
             (if channel_subscriptions (mgr w) channel = None then (w, Running)
              else (w, Crashed AttributeError))
         | Object message \<Rightarrow>
             (case broadcast_to_channel now wfail channel message (Some websocket) w of
                (w', _, Inl e) \<Rightarrow> (w', Crashed e)
              | (w', _, Inr _) \<Rightarrow> (w', Running)))"

text \<open>The \<^verbatim>\<open>while True\<close> loops, run on the inbound frames that have arrived so far.\<close>

fun websocket_endpoint_loop :: "string \<Rightarrow> (websocket \<Rightarrow> bool) \<Rightarrow> websocket \<Rightarrow> request inbound list
    \<Rightarrow> world \<Rightarrow> world \<times> status" where
  "websocket_endpoint_loop now wfail websocket [] w = (w, Running)"
| "websocket_endpoint_loop now wfail websocket (inb # rest) w =
     (case websocket_endpoint_step now wfail websocket inb w of
        (w', Running) \<Rightarrow> websocket_endpoint_loop now wfail websocket rest w'
      | (w', s) \<Rightarrow> (w', s))"

fun workflow_websocket_loop :: "string \<Rightarrow> (websocket \<Rightarrow> bool) \<Rightarrow> websocket \<Rightarrow> string \<Rightarrow> dict inbound list
    \<Rightarrow> world \<Rightarrow> world \<times> status" where
  "workflow_websocket_loop now wfail websocket workflow_id [] w = (w, Running)"
| "workflow_websocket_loop now wfail websocket workflow_id (inb # rest) w =
     (case workflow_websocket_step now wfail websocket workflow_id inb w of
        (w', Running) \<Rightarrow> workflow_websocket_loop now wfail websocket workflow_id rest w'
      | (w', s) \<Rightarrow> (w', s))"

text \<open>
  The handlers: \<^verbatim>\<open>connect\<close> is called before the \<^verbatim>\<open>try\<close>, so an exception of
  \<^verbatim>\<open>connect\<close> leaves the handler.
\<close>

definition websocket_endpoint :: "conn_id \<Rightarrow> string \<Rightarrow> (websocket \<Rightarrow> bool) \<Rightarrow> websocket \<Rightarrow> request inbound list
    \<Rightarrow> world \<Rightarrow> world \<times> status" where
  "websocket_endpoint cid now wfail websocket frames w =
     (case connect cid now wfail websocket None w of
        (w', Inl e) \<Rightarrow> (w', Crashed e)
      | (w', Inr _) \<Rightarrow> websocket_endpoint_loop now wfail websocket frames w')"

definition workflow_websocket :: "conn_id \<Rightarrow> string \<Rightarrow> (websocket \<Rightarrow> bool) \<Rightarrow> websocket \<Rightarrow> string
    \<Rightarrow> dict inbound list \<Rightarrow> world \<Rightarrow> world \<times> status" where
  "workflow_websocket cid now wfail websocket workflow_id frames w =
     (case connect cid now wfail websocket (Some (''workflow:'' @ workflow_id)) w of
        (w', Inl e) \<Rightarrow> (w', Crashed e)
      | (w', Inr _) \<Rightarrow> workflow_websocket_loop now wfail websocket workflow_id frames w')"

subsection \<open>Reading the state\<close>

text \<open>The subscriber set of a channel and the channel set of an identity; empty when absent.\<close>

definition subscribers_of :: "WebSocketManager \<Rightarrow> channel \<Rightarrow> conn_id list" where
  "subscribers_of m c = (case channel_subscriptions m c of None \<Rightarrow> [] | Some s \<Rightarrow> s)"

definition channels_of :: "WebSocketManager \<Rightarrow> conn_id \<Rightarrow> channel list" where
  "channels_of m x = (case connection_channels m x of None \<Rightarrow> [] | Some cs \<Rightarrow> cs)"

text \<open>The two subscription indices mirror each other.\<close>

definition consistent :: "WebSocketManager \<Rightarrow> bool" where
  "consistent m = (\<forall>x c. (x \<in> set (subscribers_of m c)) = (c \<in> set (channels_of m x)))"

text \<open>No channel entry holds an empty subscriber set.\<close>

definition no_empty_channel :: "WebSocketManager \<Rightarrow> bool" where
  "no_empty_channel m = (\<forall>c. channel_subscriptions m c \<noteq> Some [])"

text \<open>An identity is gone: no handle, no metadata, no channel set, in no subscriber set.\<close>

definition absent :: "conn_id \<Rightarrow> WebSocketManager \<Rightarrow> bool" where
  "absent x m = (map_of (active_connections m) x = None
               \<and> connection_metadata m x = None
               \<and> connection_channels m x = None
               \<and> (\<forall>c. x \<notin> set (subscribers_of m c)))"

text \<open>
  The frames on which the body of the loop of \<^verbatim>\<open>websocket_endpoint\<close> raises whatever the
  state and the transport: text that is not JSON, JSON that is not an object, a subscribe
  request whose \<^verbatim>\<open>channels\<close> cannot be iterated or lists a value that cannot be hashed.
\<close>

fun is_nested :: "element \<Rightarrow> bool" where
  "is_nested (Name c) = False"
| "is_nested (NestedList vs) = True"
| "is_nested (NestedObject d) = True"

fun malformed_field :: "channels_field \<Rightarrow> bool" where
  "malformed_field (Listed es) = list_ex is_nested es"
| "malformed_field (Text s) = False"
| "malformed_field (Keyed d) = False"
| "malformed_field (NotIterable v) = True"

fun malformed :: "request inbound \<Rightarrow> bool" where
  "malformed NotJson = True"
| "malformed NotObject = True"
| "malformed (Object (SubscribeReq f)) = malformed_field f"
| "malformed (Object (PingReq ts)) = False"
| "malformed (Object OtherReq) = False"
| "malformed Disconnected = False"

text \<open>What an operation added to the trace, and how its events are read.\<close>

definition new_events :: "world \<Rightarrow> world \<Rightarrow> event list" where
  "new_events w w' = drop (length (trace w)) (trace w')"

fun recipient :: "event \<Rightarrow> conn_id option" where
  "recipient (SendText who ws payload ok) = who"
| "recipient (Accept ws) = None"
| "recipient (Log l e fs) = None"

fun is_write :: "event \<Rightarrow> bool" where
  "is_write (SendText who ws payload ok) = True"
| "is_write (Accept ws) = False"
| "is_write (Log l e fs) = False"

fun is_removal :: "event \<Rightarrow> bool" where
  "is_removal (Log l e fs) = (l = Info \<and> e = ''WebSocket connection removed'')"
| "is_removal (Accept ws) = False"
| "is_removal (SendText who ws payload ok) = False"

text \<open>
  The parts of a broadcast that reaches the fan-out, named for the statements below: the
  identity the \<^verbatim>\<open>exclude\<close> handle resolves to (lines 207-212), the payload after
  \<^verbatim>\<open>message.update\<close> (lines 215-218), and the fan-out loop run on the subscriber set
  \<open>s\<close> of the channel in world \<open>w\<close>.
\<close>

definition exclude_id_of :: "websocket option \<Rightarrow> world \<Rightarrow> conn_id option" where
  "exclude_id_of exclude w =
     (case exclude of
        None \<Rightarrow> None
      | Some ws \<Rightarrow> find_connection_id (active_connections (mgr w)) ws)"

definition enriched :: "string \<Rightarrow> channel \<Rightarrow> dict \<Rightarrow> dict" where
  "enriched now channel message =
     AList.update ''timestamp'' (JStr now) (AList.update ''channel'' (JStr channel) message)"

definition broadcast_fan_out :: "string \<Rightarrow> (websocket \<Rightarrow> bool) \<Rightarrow> channel \<Rightarrow> dict \<Rightarrow> websocket option
    \<Rightarrow> world \<Rightarrow> conn_id list \<Rightarrow> event list \<times> conn_id list" where
  "broadcast_fan_out now wfail channel message exclude w s =
     fan_out (exclude_id_of exclude w) (active_connections (mgr w)) wfail channel
       (enriched now channel message) s"

text \<open>
  Two handles, two transports (one on which every write succeeds, one on which the writes
  to \<open>ws_a\<close> raise), a payload, and a world in which both handles have connected to
  channel \<open>c\<close>.
\<close>

definition ws_a :: websocket where
  "ws_a = WebSocket 1 None"

definition ws_b :: websocket where
  "ws_b = WebSocket 2 None"

definition never_fails :: "websocket \<Rightarrow> bool" where
  "never_fails ws = False"

definition fails_a :: "websocket \<Rightarrow> bool" where
  "fails_a ws = (ws = ws_a)"

definition msg_x :: dict where
  "msg_x = [(''type'', JStr ''x'')]"

definition two_subscribers :: world where
  "two_subscribers =
     fst (connect ''b'' ''t0'' never_fails ws_b (Some ''c'')
       (fst (connect ''a'' ''t0'' never_fails ws_a (Some ''c'') init_world)))"

text \<open>A world in which one handle has connected to channel \<open>c\<close>.\<close>

definition one_subscriber :: world where
  "one_subscriber = fst (connect ''a'' ''t0'' never_fails ws_a (Some ''c'') init_world)"

text \<open>
  A subscribe request that names channel \<open>d\<close> and then holds a nested list:
  \<^verbatim>\<open>{"type": "subscribe", "channels": ["d", ["e"]]}\<close>.
\<close>

definition nested_request :: "request inbound" where
  "nested_request = Object (SubscribeReq (Listed [Name ''d'', NestedList [JStr ''e'']]))"

text \<open>
  The same world after \<^verbatim>\<open>subscribe_connection("ghost", "c")\<close>, which leaves \<open>ghost\<close>
  among the subscribers of \<open>c\<close> without a registered handle.
\<close>

definition with_ghost :: world where
  "with_ghost = fst (subscribe_connection ''ghost'' ''c'' two_subscribers)"

text \<open>
  The states the public operations of the manager can produce from the initial one,
  whatever their arguments and whether they return or raise.
\<close>

inductive reachable :: "world \<Rightarrow> bool" where
  r_init: "reachable init_world"
| r_connect: "reachable w \<Longrightarrow> reachable (fst (connect cid now wfail ws ic w))"
| r_disconnect: "reachable w \<Longrightarrow> reachable (disconnect ws w)"
| r_disconnect_by_id: "reachable w \<Longrightarrow> reachable (disconnect_by_id x w)"
| r_subscribe_connection: "reachable w \<Longrightarrow> reachable (fst (subscribe_connection x c w))"
| r_unsubscribe_connection: "reachable w \<Longrightarrow> reachable (fst (unsubscribe_connection x c w))"
| r_subscribe: "reachable w \<Longrightarrow> reachable (fst (subscribe now wfail ws cs w))"
| r_broadcast: "reachable w \<Longrightarrow> reachable (fst (broadcast_to_channel now wfail c msg ex w))"
| r_send: "reachable w \<Longrightarrow> reachable (fst (send_to_connection now wfail x msg w))"

text \<open>
  Every registered identity has a channel set; \<^verbatim>\<open>connect\<close> creates both entries and
  \<^verbatim>\<open>_remove_connection\<close> deletes both.
\<close>

definition registered_have_channels :: "WebSocketManager \<Rightarrow> bool" where
  "registered_have_channels m =
     (\<forall>x. map_of (active_connections m) x \<noteq> None \<longrightarrow> connection_channels m x \<noteq> None)"

text \<open>
  The states produced when \<^verbatim>\<open>uuid4\<close> never repeats an identity and
  \<^verbatim>\<open>subscribe_connection\<close> is only called with an identity that has a channel set.
\<close>

inductive reachable_known :: "world \<Rightarrow> bool" where
  k_init: "reachable_known init_world"
| k_connect: "reachable_known w \<Longrightarrow> connection_channels (mgr w) cid = None \<Longrightarrow>
     reachable_known (fst (connect cid now wfail ws ic w))"
| k_disconnect: "reachable_known w \<Longrightarrow> reachable_known (disconnect ws w)"
| k_disconnect_by_id: "reachable_known w \<Longrightarrow> reachable_known (disconnect_by_id x w)"
| k_subscribe_connection: "reachable_known w \<Longrightarrow> connection_channels (mgr w) x \<noteq> None \<Longrightarrow>
     reachable_known (fst (subscribe_connection x c w))"
| k_unsubscribe_connection: "reachable_known w \<Longrightarrow> reachable_known (fst (unsubscribe_connection x c w))"
| k_subscribe: "reachable_known w \<Longrightarrow> reachable_known (fst (subscribe now wfail ws cs w))"
| k_broadcast: "reachable_known w \<Longrightarrow> reachable_known (fst (broadcast_to_channel now wfail c msg ex w))"
| k_send: "reachable_known w \<Longrightarrow> reachable_known (fst (send_to_connection now wfail x msg w))"

section \<open>Properties\<close>

subsection \<open>What removing a connection does to each index\<close>

lemma mgr_emit [simp]: "mgr (emit evs w) = mgr w"
  by (simp add: emit_def)

lemma trace_emit [simp]: "trace (emit evs w) = trace w @ evs"
  by (simp add: emit_def)

lemma new_events_append: "trace w' = trace w @ evs \<Longrightarrow> new_events w w' = evs"
  by (simp add: new_events_def)

lemma subs_remove:
  "channel_subscriptions (remove_from_manager x m) c =
     (case channel_subscriptions m c of
        None \<Rightarrow> None
      | Some s \<Rightarrow> if removeAll x s = [] then None else Some (removeAll x s))"
  by (simp add: remove_from_manager_def discard_everywhere_def channels_to_cleanup_def
        delete_channels_def Let_def split: option.splits)

lemma active_remove:
  "map_of (active_connections (remove_from_manager x m)) = (map_of (active_connections m))(x := None)"
  by (auto simp add: remove_from_manager_def Let_def AList.delete_conv' fun_eq_iff)

lemma meta_remove:
  "connection_metadata (remove_from_manager x m) = (connection_metadata m)(x := None)"
  by (simp add: remove_from_manager_def Let_def)

lemma chans_remove:
  "connection_channels (remove_from_manager x m) = (connection_channels m)(x := None)"
  by (simp add: remove_from_manager_def Let_def)

lemma removeAll_Nil_set: "removeAll x s = [] \<Longrightarrow> set s - {x} = {}"
proof -
  assume "removeAll x s = []"
  then have "set (removeAll x s) = {}" by simp
  then show ?thesis by simp
qed

lemma subscribers_of_remove:
  "set (subscribers_of (remove_from_manager x m) c) = set (subscribers_of m c) - {x}"
proof (cases "channel_subscriptions m c")
  case None
  then show ?thesis by (simp add: subscribers_of_def subs_remove)
next
  case (Some s)
  then show ?thesis
    by (cases "removeAll x s = []") (simp_all add: subscribers_of_def subs_remove removeAll_Nil_set)
qed

lemma absent_remove: "absent x (remove_from_manager x m)"
  by (simp add: absent_def active_remove meta_remove chans_remove subscribers_of_remove)

lemma absent_remove_other: "absent y m \<Longrightarrow> absent y (remove_from_manager x m)"
  by (auto simp add: absent_def active_remove meta_remove chans_remove subscribers_of_remove)

lemma mgr_remove_connection [simp]: "mgr (remove_connection x w) = remove_from_manager x (mgr w)"
  by (simp add: remove_connection_def emit_def)

lemma trace_remove_connection [simp]:
  "trace (remove_connection x w) = trace w @ [Log Info ''WebSocket connection removed'' [x]]"
  by (simp add: remove_connection_def emit_def)

lemma mgr_fold_remove:
  "mgr (fold remove_connection xs w) = fold remove_from_manager xs (mgr w)"
  by (induction xs arbitrary: w) simp_all

lemma trace_fold_remove:
  "trace (fold remove_connection xs w) =
     trace w @ map (\<lambda>x. Log Info ''WebSocket connection removed'' [x]) xs"
  by (induction xs arbitrary: w) simp_all

lemma absent_fold_remove_other: "absent y m \<Longrightarrow> absent y (fold remove_from_manager xs m)"
  by (induction xs arbitrary: m) (simp_all add: absent_remove_other)

lemma absent_fold_remove: "x \<in> set xs \<Longrightarrow> absent x (fold remove_from_manager xs m)"
  by (induction xs arbitrary: m) (auto simp add: absent_remove absent_fold_remove_other)

subsection \<open>The example world\<close>

lemma ws_a_neq_b: "ws_a \<noteq> ws_b"
  by (simp add: ws_a_def ws_b_def)

lemma two_subscribers_mgr:
  "active_connections (mgr two_subscribers) = [(''a'', ws_a), (''b'', ws_b)]"
  "channel_subscriptions (mgr two_subscribers) = [''c'' \<mapsto> [''b'', ''a'']]"
  "connection_channels (mgr two_subscribers) = [''a'' \<mapsto> [''c''], ''b'' \<mapsto> [''c'']]"
  by (auto simp add: two_subscribers_def connect_def subscribe_connection_def mutate_def emit_def
        init_world_def init_def Let_def ws_a_def ws_b_def never_fails_def fun_eq_iff)

lemma two_subscribers_reachable: "reachable two_subscribers"
  unfolding two_subscribers_def by (intro r_connect r_init)

lemma one_subscriber_mgr:
  "active_connections (mgr one_subscriber) = [(''a'', ws_a)]"
  "channel_subscriptions (mgr one_subscriber) ''c'' = Some [''a'']"
  by (simp_all add: one_subscriber_def connect_def subscribe_connection_def mutate_def emit_def
        init_world_def init_def Let_def never_fails_def)

lemma with_ghost_mgr:
  "active_connections (mgr with_ghost) = [(''a'', ws_a), (''b'', ws_b)]"
  "channel_subscriptions (mgr with_ghost) ''c'' = Some [''ghost'', ''b'', ''a'']"
  by (simp_all add: with_ghost_def subscribe_connection_def mutate_def Let_def two_subscribers_mgr)

subsection \<open>Subscribing an identity the registry does not know\<close>

text \<open>
  C1 (the code departs from the claim). The claim: in every reachable state an identity
  is in a channel's subscriber set if and only if the channel is in the identity's channel
  set, for every identity supplied to subscribe, unknown ones included. On the empty
  manager, \<^verbatim>\<open>subscribe_connection("ghost", "news")\<close> records \<open>ghost\<close> under \<open>news\<close> and
  then raises at line 142: the state it leaves is reachable and the two indices disagree
  on the pair.
\<close>

theorem subscribe_unknown_breaks_mirror:
  "reachable (fst (subscribe_connection ''ghost'' ''news'' init_world))
   \<and> ''ghost'' \<in> set (subscribers_of (mgr (fst (subscribe_connection ''ghost'' ''news'' init_world))) ''news'')
   \<and> ''news'' \<notin> set (channels_of (mgr (fst (subscribe_connection ''ghost'' ''news'' init_world))) ''ghost'')
   \<and> \<not> consistent (mgr (fst (subscribe_connection ''ghost'' ''news'' init_world)))"
proof -
  let ?w = "fst (subscribe_connection ''ghost'' ''news'' init_world)"
  have r: "reachable ?w" by (rule r_subscribe_connection [OF r_init])
  have a: "''ghost'' \<in> set (subscribers_of (mgr ?w) ''news'')"
    by (simp add: subscribers_of_def subscribe_connection_def mutate_def init_world_def init_def Let_def)
  have b: "''news'' \<notin> set (channels_of (mgr ?w) ''ghost'')"
    by (simp add: channels_of_def subscribe_connection_def mutate_def init_world_def init_def Let_def)
  from a b have "\<not> consistent (mgr ?w)" unfolding consistent_def by blast
  with r a b show ?thesis by blast
qed

text \<open>
  C2 (the code departs from the claim). The claim: an operation that names an identity
  absent from the registry is a silent no-op. On the empty manager,
  \<^verbatim>\<open>subscribe_connection("ghost", "news")\<close> raises \<^verbatim>\<open>KeyError\<close> to its caller and has
  created the channel \<open>news\<close> with subscriber \<open>ghost\<close> by then.
\<close>

theorem subscribe_unknown_raises:
  "map_of (active_connections (mgr init_world)) ''ghost'' = None
   \<and> snd (subscribe_connection ''ghost'' ''news'' init_world) = Inl (KeyError ''ghost'')
   \<and> channel_subscriptions (mgr (fst (subscribe_connection ''ghost'' ''news'' init_world))) ''news''
        = Some [''ghost'']
   \<and> fst (subscribe_connection ''ghost'' ''news'' init_world) \<noteq> init_world"
proof -
  have a: "channel_subscriptions (mgr (fst (subscribe_connection ''ghost'' ''news'' init_world))) ''news''
        = Some [''ghost'']"
    by (simp add: subscribe_connection_def mutate_def init_world_def init_def Let_def)
  have b: "channel_subscriptions (mgr init_world) ''news'' = None"
    by (simp add: init_world_def init_def)
  from a b have "fst (subscribe_connection ''ghost'' ''news'' init_world) \<noteq> init_world"
    by auto
  then show ?thesis using a
    by (simp add: subscribe_connection_def mutate_def init_world_def init_def Let_def)
qed

subsection \<open>What a broadcast returns\<close>

lemma broadcast_returns_none:
  "snd (snd (broadcast_to_channel now wfail channel message exclude w)) = Inr v \<Longrightarrow> v = PyNone"
  by (auto simp add: broadcast_to_channel_def Let_def split: option.splits prod.splits)

lemma broadcast_no_channel:
  "channel_subscriptions (mgr w) channel = None \<Longrightarrow>
   broadcast_to_channel now wfail channel message exclude w = (w, message, Inr PyNone)"
  by (simp add: broadcast_to_channel_def)

text \<open>
  C3, as stated, fails. The claim: every broadcast returns a delivery report that records
  the attempted and the failed identities. With \<open>a\<close> and \<open>b\<close> subscribed to \<open>c\<close>, the
  broadcast in which the write to \<open>a\<close> fails returns \<^verbatim>\<open>None\<close>, the very value returned by
  the broadcast in which no write fails.
\<close>

theorem broadcast_report_counterexample:
  "snd (snd (broadcast_to_channel ''t1'' fails_a ''c'' msg_x None two_subscribers)) = Inr PyNone
   \<and> snd (snd (broadcast_to_channel ''t1'' never_fails ''c'' msg_x None two_subscribers)) = Inr PyNone
   \<and> SendText (Some ''a'') ws_a
         [(''type'', JStr ''x''), (''channel'', JStr ''c''), (''timestamp'', JStr ''t1'')] False
       \<in> set (new_events two_subscribers
                 (fst (broadcast_to_channel ''t1'' fails_a ''c'' msg_x None two_subscribers)))"
  by (simp add: broadcast_to_channel_def two_subscribers_mgr Let_def fails_a_def never_fails_def
        msg_x_def ws_a_neq_b ws_a_neq_b [symmetric] subs_remove new_events_def)

text \<open>
  C3, amended. A broadcast returns no report: whenever it returns, the value is
  \<^verbatim>\<open>None\<close> (the failures are only logged). When the channel has no entry in the
  subscription index it returns at once and changes nothing: the manager, the payload and
  the trace of writes and log records are as before.
\<close>

theorem broadcast_no_report:
  "(\<forall>v. snd (snd (broadcast_to_channel now wfail channel message exclude w)) = Inr v \<longrightarrow> v = PyNone)
   \<and> (channel_subscriptions (mgr w) channel = None \<longrightarrow>
        broadcast_to_channel now wfail channel message exclude w = (w, message, Inr PyNone))"
  using broadcast_returns_none broadcast_no_channel by blast

theorem broadcast_no_report_witness:
  "channel_subscriptions (mgr init_world) ''c'' = None
   \<and> broadcast_to_channel ''t1'' never_fails ''c'' msg_x None init_world = (init_world, msg_x, Inr PyNone)"
  using broadcast_no_report [of "''t1''" never_fails "''c''" msg_x None init_world]
  by (simp add: init_world_def init_def)

subsection \<open>Sending to one connection\<close>

lemma send_ok:
  "map_of (active_connections (mgr w)) x = Some ws \<Longrightarrow> \<not> wfail ws \<Longrightarrow>
   send_to_connection now wfail x message w =
     (emit [SendText (Some x) ws (AList.update ''timestamp'' (JStr now) message) True] w,
      AList.update ''timestamp'' (JStr now) message, Inr (PyBool True))"
  by (simp add: send_to_connection_def Let_def)

lemma send_fail:
  "map_of (active_connections (mgr w)) x = Some ws \<Longrightarrow> wfail ws \<Longrightarrow>
   send_to_connection now wfail x message w =
     (remove_connection x
        (emit [SendText (Some x) ws (AList.update ''timestamp'' (JStr now) message) False,
               Log Error ''Failed to send message to connection'' [x]] w),
      AList.update ''timestamp'' (JStr now) message, Inr (PyBool False))"
  by (simp add: send_to_connection_def Let_def)

lemma send_unknown:
  "map_of (active_connections (mgr w)) x = None \<Longrightarrow>
   send_to_connection now wfail x message w =
     (emit [Log Warning ''Attempted to send message to unknown connection'' [x]] w,
      message, Inr (PyBool False))"
  by (simp add: send_to_connection_def)

text \<open>
  C6. \<^verbatim>\<open>send_to_connection(identity, payload)\<close>: when the identity is registered and the
  write succeeds, it returns \<^verbatim>\<open>True\<close> (and the manager is unchanged); when the identity
  is registered and the write fails, it returns \<^verbatim>\<open>False\<close> and the identity has been
  evicted: no handle, no metadata, no channel set, in no subscriber set; when the identity
  is unknown, it returns \<^verbatim>\<open>False\<close>, the manager and the payload are unchanged and no
  write is attempted.
\<close>

theorem send_to_connection_outcomes:
  "(map_of (active_connections (mgr w)) x = Some ws \<and> \<not> wfail ws \<longrightarrow>
      snd (snd (send_to_connection now wfail x message w)) = Inr (PyBool True)
      \<and> mgr (fst (send_to_connection now wfail x message w)) = mgr w)
   \<and> (map_of (active_connections (mgr w)) x = Some ws \<and> wfail ws \<longrightarrow>
      snd (snd (send_to_connection now wfail x message w)) = Inr (PyBool False)
      \<and> mgr (fst (send_to_connection now wfail x message w)) = remove_from_manager x (mgr w)
      \<and> absent x (mgr (fst (send_to_connection now wfail x message w))))
   \<and> (map_of (active_connections (mgr w)) x = None \<longrightarrow>
      snd (snd (send_to_connection now wfail x message w)) = Inr (PyBool False)
      \<and> mgr (fst (send_to_connection now wfail x message w)) = mgr w
      \<and> fst (snd (send_to_connection now wfail x message w)) = message
      \<and> (\<forall>e \<in> set (new_events w (fst (send_to_connection now wfail x message w))). \<not> is_write e))"
proof (intro conjI impI)
  assume h: "map_of (active_connections (mgr w)) x = Some ws \<and> \<not> wfail ws"
  then show "snd (snd (send_to_connection now wfail x message w)) = Inr (PyBool True)"
    by (simp add: send_ok)
  from h show "mgr (fst (send_to_connection now wfail x message w)) = mgr w"
    by (simp add: send_ok)
next
  assume h: "map_of (active_connections (mgr w)) x = Some ws \<and> wfail ws"
  then show "snd (snd (send_to_connection now wfail x message w)) = Inr (PyBool False)"
    by (simp add: send_fail)
  from h show "mgr (fst (send_to_connection now wfail x message w)) = remove_from_manager x (mgr w)"
    by (simp add: send_fail)
  from h show "absent x (mgr (fst (send_to_connection now wfail x message w)))"
    by (simp add: send_fail absent_remove)
next
  assume h: "map_of (active_connections (mgr w)) x = None"
  then show "snd (snd (send_to_connection now wfail x message w)) = Inr (PyBool False)"
    by (simp add: send_unknown)
  from h show "mgr (fst (send_to_connection now wfail x message w)) = mgr w"
    by (simp add: send_unknown)
  from h show "fst (snd (send_to_connection now wfail x message w)) = message"
    by (simp add: send_unknown)
  from h show "\<forall>e \<in> set (new_events w (fst (send_to_connection now wfail x message w))). \<not> is_write e"
    by (simp add: send_unknown new_events_def)
qed

theorem send_to_connection_outcomes_witness:
  "(map_of (active_connections (mgr two_subscribers)) ''b'' = Some ws_b \<and> \<not> fails_a ws_b
     \<and> snd (snd (send_to_connection ''t1'' fails_a ''b'' msg_x two_subscribers)) = Inr (PyBool True))
   \<and> (map_of (active_connections (mgr two_subscribers)) ''a'' = Some ws_a \<and> fails_a ws_a
     \<and> snd (snd (send_to_connection ''t1'' fails_a ''a'' msg_x two_subscribers)) = Inr (PyBool False)
     \<and> absent ''a'' (mgr (fst (send_to_connection ''t1'' fails_a ''a'' msg_x two_subscribers))))
   \<and> (map_of (active_connections (mgr two_subscribers)) ''z'' = None
     \<and> snd (snd (send_to_connection ''t1'' fails_a ''z'' msg_x two_subscribers)) = Inr (PyBool False)
     \<and> mgr (fst (send_to_connection ''t1'' fails_a ''z'' msg_x two_subscribers)) = mgr two_subscribers)"
proof -
  have hb: "map_of (active_connections (mgr two_subscribers)) ''b'' = Some ws_b \<and> \<not> fails_a ws_b"
    by (simp add: two_subscribers_mgr fails_a_def ws_a_neq_b [symmetric])
  have ha: "map_of (active_connections (mgr two_subscribers)) ''a'' = Some ws_a \<and> fails_a ws_a"
    by (simp add: two_subscribers_mgr fails_a_def)
  have hz: "map_of (active_connections (mgr two_subscribers)) ''z'' = None"
    by (simp add: two_subscribers_mgr)
  show ?thesis
    using hb ha hz
      send_to_connection_outcomes [of two_subscribers "''b''" ws_b fails_a "''t1''" msg_x]
      send_to_connection_outcomes [of two_subscribers "''a''" ws_a fails_a "''t1''" msg_x]
      send_to_connection_outcomes [of two_subscribers "''z''" ws_a fails_a "''t1''" msg_x]
    by blast
qed

subsection \<open>The payload after delivery\<close>

text \<open>
  C9. A broadcast that finds an entry for the channel leaves the caller's payload with the
  fields \<open>channel\<close> and \<open>timestamp\<close> set to the channel name and the time of the call;
  a send to a registered identity leaves it with \<open>timestamp\<close> set. Values that were
  under those keys are overwritten, every other key keeps its value.
\<close>

theorem payload_mutated_in_place:
  "(channel_subscriptions (mgr w) channel \<noteq> None \<longrightarrow>
      fst (snd (broadcast_to_channel now wfail channel message exclude w))
        = AList.update ''timestamp'' (JStr now) (AList.update ''channel'' (JStr channel) message)
      \<and> map_of (fst (snd (broadcast_to_channel now wfail channel message exclude w)))
        = (map_of message)(''channel'' \<mapsto> JStr channel, ''timestamp'' \<mapsto> JStr now))
   \<and> (map_of (active_connections (mgr w)) x \<noteq> None \<longrightarrow>
      fst (snd (send_to_connection now wfail x message w))
        = AList.update ''timestamp'' (JStr now) message
      \<and> map_of (fst (snd (send_to_connection now wfail x message w)))
        = (map_of message)(''timestamp'' \<mapsto> JStr now))"
  by (auto simp add: broadcast_to_channel_def send_to_connection_def Let_def AList.update_conv'
        split: option.splits prod.splits)

theorem payload_mutated_in_place_witness:
  "channel_subscriptions (mgr two_subscribers) ''c'' \<noteq> None
   \<and> fst (snd (broadcast_to_channel ''t1'' never_fails ''c''
         [(''timestamp'', JStr ''old''), (''type'', JStr ''x'')] None two_subscribers))
       = [(''timestamp'', JStr ''t1''), (''type'', JStr ''x''), (''channel'', JStr ''c'')]
   \<and> map_of (active_connections (mgr two_subscribers)) ''a'' \<noteq> None
   \<and> fst (snd (send_to_connection ''t1'' never_fails ''a''
         [(''timestamp'', JStr ''old''), (''type'', JStr ''x'')] two_subscribers))
       = [(''timestamp'', JStr ''t1''), (''type'', JStr ''x'')]"
  using payload_mutated_in_place [of two_subscribers "''c''" "''t1''" never_fails
          "[(''timestamp'', JStr ''old''), (''type'', JStr ''x'')]" None "''a''"]
  by (simp add: two_subscribers_mgr)

subsection \<open>The fan-out loop\<close>

lemma fan_out_failed:
  "x \<in> set (snd (fan_out ex act wfail ch t s)) \<longleftrightarrow>
     x \<in> set s \<and> Some x \<noteq> ex \<and> (\<exists>ws. map_of act x = Some ws \<and> wfail ws)"
  by (induction s) (auto split: option.splits prod.splits)

lemma fan_out_write:
  "x \<in> set s \<Longrightarrow> Some x \<noteq> ex \<Longrightarrow> map_of act x = Some ws \<Longrightarrow>
   SendText (Some x) ws t (\<not> wfail ws) \<in> set (fst (fan_out ex act wfail ch t s))"
  by (induction s) (auto split: option.splits prod.splits)

lemma fan_out_recipient:
  "e \<in> set (fst (fan_out ex act wfail ch t s)) \<Longrightarrow> recipient e = Some y \<Longrightarrow>
   y \<in> set s \<and> Some y \<noteq> ex \<and> map_of act y \<noteq> None"
  by (induction s) (auto split: option.splits prod.splits if_splits)

lemma fan_out_handle:
  "SendText who ws' p ok \<in> set (fst (fan_out ex act wfail ch t s)) \<Longrightarrow>
   \<exists>y. who = Some y \<and> y \<in> set s \<and> Some y \<noteq> ex \<and> map_of act y = Some ws'"
  by (induction s) (auto split: option.splits prod.splits if_splits)

lemma fan_out_no_removal:
  "e \<in> set (fst (fan_out ex act wfail ch t s)) \<Longrightarrow> \<not> is_removal e"
  by (induction s) (auto split: option.splits prod.splits if_splits)

lemma broadcast_unfold:
  "channel_subscriptions (mgr w) channel = Some s \<Longrightarrow>
   broadcast_fan_out now wfail channel message exclude w s = (evs, failed) \<Longrightarrow>
   broadcast_to_channel now wfail channel message exclude w =
     (case channel_subscriptions (mgr (fold remove_connection failed (emit evs w))) channel of
        None \<Rightarrow> (fold remove_connection failed (emit evs w), enriched now channel message,
                 Inl (KeyError channel))
      | Some _ \<Rightarrow> (emit [Log Debug ''Message broadcasted to channel'' [channel]]
                     (fold remove_connection failed (emit evs w)),
                   enriched now channel message, Inr PyNone))"
  unfolding broadcast_to_channel_def broadcast_fan_out_def exclude_id_of_def enriched_def
  by (simp add: Let_def)

lemma broadcast_mgr:
  assumes "channel_subscriptions (mgr w) channel = Some s"
  shows "mgr (fst (broadcast_to_channel now wfail channel message exclude w))
           = fold remove_from_manager (snd (broadcast_fan_out now wfail channel message exclude w s)) (mgr w)"
proof -
  obtain evs failed where fo: "broadcast_fan_out now wfail channel message exclude w s = (evs, failed)"
    by (cases "broadcast_fan_out now wfail channel message exclude w s")
  show ?thesis
    by (simp add: broadcast_unfold [OF assms fo] fo mgr_fold_remove split: option.splits)
qed

lemma broadcast_trace:
  assumes "channel_subscriptions (mgr w) channel = Some s"
  shows "\<exists>tl. trace (fst (broadcast_to_channel now wfail channel message exclude w))
           = trace w @ fst (broadcast_fan_out now wfail channel message exclude w s)
               @ map (\<lambda>x. Log Info ''WebSocket connection removed'' [x])
                   (snd (broadcast_fan_out now wfail channel message exclude w s))
               @ tl
         \<and> (\<forall>e \<in> set tl. \<not> is_write e \<and> \<not> is_removal e)"
proof -
  obtain evs failed where fo: "broadcast_fan_out now wfail channel message exclude w s = (evs, failed)"
    by (cases "broadcast_fan_out now wfail channel message exclude w s")
  let ?w2 = "fold remove_connection failed (emit evs w)"
  have "trace ?w2 = trace w @ evs @ map (\<lambda>x. Log Info ''WebSocket connection removed'' [x]) failed"
    by (simp add: trace_fold_remove)
  then show ?thesis
    by (cases "channel_subscriptions (mgr ?w2) channel")
       (simp_all add: broadcast_unfold [OF assms fo] fo)
qed

lemma new_events_same [simp]: "new_events w w = []"
  by (simp add: new_events_def)

lemma fold_remove_keeps:
  "g \<notin> set xs \<Longrightarrow>
   (g \<in> set (subscribers_of (fold remove_from_manager xs m) c)) = (g \<in> set (subscribers_of m c))
   \<and> connection_channels (fold remove_from_manager xs m) g = connection_channels m g
   \<and> connection_metadata (fold remove_from_manager xs m) g = connection_metadata m g"
  by (induction xs arbitrary: m) (auto simp add: subscribers_of_remove chans_remove meta_remove)

lemma broadcast_fan_out_failed:
  "x \<in> set (snd (broadcast_fan_out now wfail channel message exclude w s)) \<longleftrightarrow>
     x \<in> set s \<and> Some x \<noteq> exclude_id_of exclude w
     \<and> (\<exists>ws. map_of (active_connections (mgr w)) x = Some ws \<and> wfail ws)"
  by (simp add: broadcast_fan_out_def fan_out_failed)

text \<open>
  C5. In a broadcast to a channel with subscriber set \<open>s\<close>: every subscriber that is
  registered and is not the excluded identity gets a write attempt, whether or not the
  writes to others fail; the events of the broadcast split into a first part without any
  removal and a second part without any write, the first holding all the attempts and the
  second the removal of every identity whose write failed; and in the manager the
  broadcast leaves, every such identity is absent from the registry and from every
  subscriber set.
\<close>

theorem broadcast_failure_isolated:
  assumes "channel_subscriptions (mgr w) channel = Some s"
  shows "(\<forall>x ws. x \<in> set s \<and> Some x \<noteq> exclude_id_of exclude w
              \<and> map_of (active_connections (mgr w)) x = Some ws \<longrightarrow>
            SendText (Some x) ws (enriched now channel message) (\<not> wfail ws)
              \<in> set (new_events w (fst (broadcast_to_channel now wfail channel message exclude w))))
       \<and> (\<exists>pre post.
            new_events w (fst (broadcast_to_channel now wfail channel message exclude w)) = pre @ post
            \<and> (\<forall>e \<in> set pre. \<not> is_removal e) \<and> (\<forall>e \<in> set post. \<not> is_write e)
            \<and> (\<forall>x ws. x \<in> set s \<and> Some x \<noteq> exclude_id_of exclude w
                  \<and> map_of (active_connections (mgr w)) x = Some ws \<longrightarrow>
                  SendText (Some x) ws (enriched now channel message) (\<not> wfail ws) \<in> set pre)
            \<and> (\<forall>x ws. x \<in> set s \<and> Some x \<noteq> exclude_id_of exclude w
                  \<and> map_of (active_connections (mgr w)) x = Some ws \<and> wfail ws \<longrightarrow>
                  Log Info ''WebSocket connection removed'' [x] \<in> set post))
       \<and> (\<forall>x ws. x \<in> set s \<and> Some x \<noteq> exclude_id_of exclude w
              \<and> map_of (active_connections (mgr w)) x = Some ws \<and> wfail ws \<longrightarrow>
            absent x (mgr (fst (broadcast_to_channel now wfail channel message exclude w))))"
proof -
  let ?B = "fst (broadcast_to_channel now wfail channel message exclude w)"
  let ?fo = "broadcast_fan_out now wfail channel message exclude w s"
  let ?rm = "map (\<lambda>x. Log Info ''WebSocket connection removed'' [x]) (snd ?fo)"
  obtain tl where tr: "trace ?B = trace w @ fst ?fo @ ?rm @ tl"
    and tl: "\<forall>e \<in> set tl. \<not> is_write e \<and> \<not> is_removal e"
    using broadcast_trace [OF assms] by blast
  have ne: "new_events w ?B = fst ?fo @ (?rm @ tl)"
    using tr by (simp add: new_events_def)
  have writes: "\<forall>x ws. x \<in> set s \<and> Some x \<noteq> exclude_id_of exclude w
              \<and> map_of (active_connections (mgr w)) x = Some ws \<longrightarrow>
            SendText (Some x) ws (enriched now channel message) (\<not> wfail ws) \<in> set (fst ?fo)"
    by (simp add: broadcast_fan_out_def fan_out_write)
  have pre: "\<forall>e \<in> set (fst ?fo). \<not> is_removal e"
    by (auto simp add: broadcast_fan_out_def dest: fan_out_no_removal)
  have post: "\<forall>e \<in> set (?rm @ tl). \<not> is_write e"
    using tl by auto
  have logs: "\<forall>x ws. x \<in> set s \<and> Some x \<noteq> exclude_id_of exclude w
                  \<and> map_of (active_connections (mgr w)) x = Some ws \<and> wfail ws \<longrightarrow>
                  Log Info ''WebSocket connection removed'' [x] \<in> set (?rm @ tl)"
    using broadcast_fan_out_failed [of _ now wfail channel message exclude w s] by auto
  have gone: "\<forall>x ws. x \<in> set s \<and> Some x \<noteq> exclude_id_of exclude w
              \<and> map_of (active_connections (mgr w)) x = Some ws \<and> wfail ws \<longrightarrow> absent x (mgr ?B)"
    using broadcast_fan_out_failed [of _ now wfail channel message exclude w s]
    by (auto simp add: broadcast_mgr [OF assms] intro: absent_fold_remove)
  have first: "\<forall>x ws. x \<in> set s \<and> Some x \<noteq> exclude_id_of exclude w
              \<and> map_of (active_connections (mgr w)) x = Some ws \<longrightarrow>
            SendText (Some x) ws (enriched now channel message) (\<not> wfail ws) \<in> set (new_events w ?B)"
    using writes ne by auto
  have second: "\<exists>pre post. new_events w ?B = pre @ post
            \<and> (\<forall>e \<in> set pre. \<not> is_removal e) \<and> (\<forall>e \<in> set post. \<not> is_write e)
            \<and> (\<forall>x ws. x \<in> set s \<and> Some x \<noteq> exclude_id_of exclude w
                  \<and> map_of (active_connections (mgr w)) x = Some ws \<longrightarrow>
                  SendText (Some x) ws (enriched now channel message) (\<not> wfail ws) \<in> set pre)
            \<and> (\<forall>x ws. x \<in> set s \<and> Some x \<noteq> exclude_id_of exclude w
                  \<and> map_of (active_connections (mgr w)) x = Some ws \<and> wfail ws \<longrightarrow>
                  Log Info ''WebSocket connection removed'' [x] \<in> set post)"
    using ne pre post writes logs by blast
  from first second gone show ?thesis by blast
qed

theorem broadcast_failure_isolated_witness:
  "channel_subscriptions (mgr two_subscribers) ''c'' = Some [''b'', ''a'']
   \<and> SendText (Some ''b'') ws_b (enriched ''t1'' ''c'' msg_x) True
        \<in> set (new_events two_subscribers
                 (fst (broadcast_to_channel ''t1'' fails_a ''c'' msg_x None two_subscribers)))
   \<and> absent ''a'' (mgr (fst (broadcast_to_channel ''t1'' fails_a ''c'' msg_x None two_subscribers)))"
proof -
  have h: "channel_subscriptions (mgr two_subscribers) ''c'' = Some [''b'', ''a'']"
    by (simp add: two_subscribers_mgr)
  have b: "''b'' \<in> set [''b'', ''a''] \<and> Some ''b'' \<noteq> exclude_id_of None two_subscribers
           \<and> map_of (active_connections (mgr two_subscribers)) ''b'' = Some ws_b"
    by (simp add: exclude_id_of_def two_subscribers_mgr)
  have a: "''a'' \<in> set [''b'', ''a''] \<and> Some ''a'' \<noteq> exclude_id_of None two_subscribers
           \<and> map_of (active_connections (mgr two_subscribers)) ''a'' = Some ws_a \<and> fails_a ws_a"
    by (simp add: exclude_id_of_def two_subscribers_mgr fails_a_def)
  have nb: "(\<not> fails_a ws_b) = True"
    by (simp add: fails_a_def ws_a_neq_b [symmetric])
  note T = broadcast_failure_isolated [OF h, where exclude = None and now = "''t1''"
      and message = msg_x and wfail = fails_a]
  from T b have "SendText (Some ''b'') ws_b (enriched ''t1'' ''c'' msg_x) (\<not> fails_a ws_b)
        \<in> set (new_events two_subscribers
                 (fst (broadcast_to_channel ''t1'' fails_a ''c'' msg_x None two_subscribers)))"
    by blast
  moreover from T a
  have "absent ''a'' (mgr (fst (broadcast_to_channel ''t1'' fails_a ''c'' msg_x None two_subscribers)))"
    by blast
  ultimately show ?thesis using h nb by simp
qed

text \<open>
  C8. In a broadcast whose \<^verbatim>\<open>exclude\<close> handle resolves to identity \<open>x\<close>, no write is
  made on behalf of \<open>x\<close>; and when the handle is registered under \<open>x\<close> only, no write is
  made on the handle at all.
\<close>

theorem broadcast_excludes_sender:
  assumes "exclude = Some ws"
    and "find_connection_id (active_connections (mgr w)) ws = Some x"
  shows "(\<forall>e \<in> set (new_events w (fst (broadcast_to_channel now wfail channel message exclude w))).
            recipient e \<noteq> Some x)
       \<and> ((\<forall>y. map_of (active_connections (mgr w)) y = Some ws \<longrightarrow> y = x) \<longrightarrow>
           (\<forall>e \<in> set (new_events w (fst (broadcast_to_channel now wfail channel message exclude w))).
              \<forall>who p ok. e \<noteq> SendText who ws p ok))"
proof (cases "channel_subscriptions (mgr w) channel")
  case None
  then show ?thesis by (simp add: broadcast_no_channel)
next
  case (Some s)
  let ?B = "fst (broadcast_to_channel now wfail channel message exclude w)"
  let ?fo = "broadcast_fan_out now wfail channel message exclude w s"
  let ?rm = "map (\<lambda>x. Log Info ''WebSocket connection removed'' [x]) (snd ?fo)"
  have ex: "exclude_id_of exclude w = Some x"
    using assms by (simp add: exclude_id_of_def)
  obtain tl where tr: "trace ?B = trace w @ fst ?fo @ ?rm @ tl"
    and tl: "\<forall>e \<in> set tl. \<not> is_write e \<and> \<not> is_removal e"
    using broadcast_trace [OF Some] by blast
  have ne: "new_events w ?B = fst ?fo @ ?rm @ tl"
    using tr by (simp add: new_events_def)
  have a: "recipient e \<noteq> Some x" if "e \<in> set (new_events w ?B)" for e
  proof -
    from that ne consider "e \<in> set (fst ?fo)" | "e \<in> set ?rm" | "e \<in> set tl" by auto
    then show ?thesis
    proof cases
      case 1
      then show ?thesis
        using fan_out_recipient [of e "exclude_id_of exclude w" "active_connections (mgr w)" wfail channel
            "enriched now channel message" s x] ex
        by (auto simp add: broadcast_fan_out_def)
    next
      case 2
      then show ?thesis by auto
    next
      case 3
      with tl have "\<not> is_write e" by blast
      then show ?thesis by (cases e) simp_all
    qed
  qed
  have b: "e \<noteq> SendText who ws p ok"
    if u: "\<forall>y. map_of (active_connections (mgr w)) y = Some ws \<longrightarrow> y = x"
      and e: "e \<in> set (new_events w ?B)" for e who p ok
  proof
    assume eq: "e = SendText who ws p ok"
    from e ne consider "e \<in> set (fst ?fo)" | "e \<in> set ?rm" | "e \<in> set tl" by auto
    then show False
    proof cases
      case 1
      then obtain y where "who = Some y" "Some y \<noteq> exclude_id_of exclude w"
          "map_of (active_connections (mgr w)) y = Some ws"
        using fan_out_handle [of who ws p ok "exclude_id_of exclude w" "active_connections (mgr w)"
            wfail channel "enriched now channel message" s] eq
        by (auto simp add: broadcast_fan_out_def)
      with u ex show False by auto
    next
      case 2
      with eq show False by auto
    next
      case 3
      with tl eq show False by auto
    qed
  qed
  from a b show ?thesis by blast
qed

theorem broadcast_excludes_sender_witness:
  "find_connection_id (active_connections (mgr two_subscribers)) ws_b = Some ''b''
   \<and> ''b'' \<in> set (subscribers_of (mgr two_subscribers) ''c'')
   \<and> SendText (Some ''b'') ws_b (enriched ''t1'' ''c'' msg_x) True
        \<notin> set (new_events two_subscribers
                 (fst (broadcast_to_channel ''t1'' never_fails ''c'' msg_x (Some ws_b) two_subscribers)))"
proof -
  have f: "find_connection_id (active_connections (mgr two_subscribers)) ws_b = Some ''b''"
    by (simp add: two_subscribers_mgr ws_a_neq_b)
  have s: "''b'' \<in> set (subscribers_of (mgr two_subscribers) ''c'')"
    by (simp add: subscribers_of_def two_subscribers_mgr)
  note T = broadcast_excludes_sender [OF refl f, where now = "''t1''" and wfail = never_fails
      and channel = "''c''" and message = msg_x]
  have "SendText (Some ''b'') ws_b (enriched ''t1'' ''c'' msg_x) True
        \<notin> set (new_events two_subscribers
                 (fst (broadcast_to_channel ''t1'' never_fails ''c'' msg_x (Some ws_b) two_subscribers)))"
  proof
    assume "SendText (Some ''b'') ws_b (enriched ''t1'' ''c'' msg_x) True
        \<in> set (new_events two_subscribers
                 (fst (broadcast_to_channel ''t1'' never_fails ''c'' msg_x (Some ws_b) two_subscribers)))"
    with T have "recipient (SendText (Some ''b'') ws_b (enriched ''t1'' ''c'' msg_x) True) \<noteq> Some ''b''"
      by blast
    then show False by simp
  qed
  with f s show ?thesis by blast
qed

text \<open>
  C10. In a broadcast to a channel, a subscriber \<open>g\<close> without a registered handle is
  passed over: no write is made on its behalf, it is not among the failed connections, no
  removal of it is logged, it is still a subscriber of the channel afterwards, and its
  entries in the channel index and the metadata are untouched.
\<close>

theorem broadcast_skips_unregistered:
  assumes "channel_subscriptions (mgr w) channel = Some s"
    and "g \<in> set s"
    and "map_of (active_connections (mgr w)) g = None"
  shows "(\<forall>e \<in> set (new_events w (fst (broadcast_to_channel now wfail channel message exclude w))).
            recipient e \<noteq> Some g)
       \<and> g \<notin> set (snd (broadcast_fan_out now wfail channel message exclude w s))
       \<and> Log Info ''WebSocket connection removed'' [g]
            \<notin> set (new_events w (fst (broadcast_to_channel now wfail channel message exclude w)))
       \<and> g \<in> set (subscribers_of (mgr (fst (broadcast_to_channel now wfail channel message exclude w))) channel)
       \<and> connection_channels (mgr (fst (broadcast_to_channel now wfail channel message exclude w))) g
            = connection_channels (mgr w) g
       \<and> connection_metadata (mgr (fst (broadcast_to_channel now wfail channel message exclude w))) g
            = connection_metadata (mgr w) g"
proof -
  let ?B = "fst (broadcast_to_channel now wfail channel message exclude w)"
  let ?fo = "broadcast_fan_out now wfail channel message exclude w s"
  let ?rm = "map (\<lambda>x. Log Info ''WebSocket connection removed'' [x]) (snd ?fo)"
  obtain tl where tr: "trace ?B = trace w @ fst ?fo @ ?rm @ tl"
    and tl: "\<forall>e \<in> set tl. \<not> is_write e \<and> \<not> is_removal e"
    using broadcast_trace [OF assms(1)] by blast
  have ne: "new_events w ?B = fst ?fo @ ?rm @ tl"
    using tr by (simp add: new_events_def)
  have nf: "g \<notin> set (snd ?fo)"
    using assms(3) by (simp add: broadcast_fan_out_failed)
  have a: "recipient e \<noteq> Some g" if "e \<in> set (new_events w ?B)" for e
  proof -
    from that ne consider "e \<in> set (fst ?fo)" | "e \<in> set ?rm" | "e \<in> set tl" by auto
    then show ?thesis
    proof cases
      case 1
      then show ?thesis
        using fan_out_recipient [of e "exclude_id_of exclude w" "active_connections (mgr w)" wfail channel
            "enriched now channel message" s g] assms(3)
        by (auto simp add: broadcast_fan_out_def)
    next
      case 2
      then show ?thesis by auto
    next
      case 3
      with tl have "\<not> is_write e" by blast
      then show ?thesis by (cases e) simp_all
    qed
  qed
  have b: "Log Info ''WebSocket connection removed'' [g] \<notin> set (new_events w ?B)"
  proof
    assume "Log Info ''WebSocket connection removed'' [g] \<in> set (new_events w ?B)"
    with ne consider "Log Info ''WebSocket connection removed'' [g] \<in> set (fst ?fo)"
      | "Log Info ''WebSocket connection removed'' [g] \<in> set ?rm"
      | "Log Info ''WebSocket connection removed'' [g] \<in> set tl" by auto
    then show False
    proof cases
      case 1
      then show False
        using fan_out_no_removal [of "Log Info ''WebSocket connection removed'' [g]"]
        by (auto simp add: broadcast_fan_out_def)
    next
      case 2
      with nf show False by auto
    next
      case 3
      with tl show False by auto
    qed
  qed
  have c: "g \<in> set (subscribers_of (mgr w) channel)"
    using assms(1,2) by (simp add: subscribers_of_def)
  note keep = fold_remove_keeps [OF nf, of "mgr w" channel]
  from a nf b c keep show ?thesis
    by (simp add: broadcast_mgr [OF assms(1)])
qed

theorem broadcast_skips_unregistered_witness:
  "channel_subscriptions (mgr with_ghost) ''c'' = Some [''ghost'', ''b'', ''a'']
   \<and> ''ghost'' \<in> set [''ghost'', ''b'', ''a'']
   \<and> map_of (active_connections (mgr with_ghost)) ''ghost'' = None
   \<and> ''ghost'' \<notin> set (snd (broadcast_fan_out ''t1'' fails_a ''c'' msg_x None with_ghost [''ghost'', ''b'', ''a'']))
   \<and> ''ghost'' \<in> set (subscribers_of (mgr (fst (broadcast_to_channel ''t1'' fails_a ''c'' msg_x None with_ghost))) ''c'')"
proof -
  have h: "channel_subscriptions (mgr with_ghost) ''c'' = Some [''ghost'', ''b'', ''a'']"
    by (simp add: with_ghost_mgr)
  have g: "''ghost'' \<in> set [''ghost'', ''b'', ''a'']" by simp
  have n: "map_of (active_connections (mgr with_ghost)) ''ghost'' = None"
    by (simp add: with_ghost_mgr)
  from broadcast_skips_unregistered [OF h g n, where now = "''t1''" and wfail = fails_a
      and message = msg_x and exclude = None] h g n
  show ?thesis by blast
qed

subsection \<open>No channel without a subscriber\<close>

lemma no_empty_remove: "no_empty_channel (remove_from_manager x m)"
  by (simp add: no_empty_channel_def subs_remove split: option.splits)

lemma no_empty_fold_remove:
  "no_empty_channel m \<Longrightarrow> no_empty_channel (fold remove_from_manager xs m)"
  by (induction xs arbitrary: m) (simp_all add: no_empty_remove)

lemma insert_not_Nil [simp]: "List.insert x xs \<noteq> []"
  by (cases xs) (auto simp add: List.insert_def)

lemma no_empty_subscribe_connection:
  "no_empty_channel (mgr w) \<Longrightarrow> no_empty_channel (mgr (fst (subscribe_connection x c w)))"
  by (auto simp add: no_empty_channel_def subscribe_connection_def mutate_def Let_def
        split: option.splits if_splits)

lemma no_empty_unsubscribe_connection:
  "no_empty_channel (mgr w) \<Longrightarrow> no_empty_channel (mgr (fst (unsubscribe_connection x c w)))"
  by (auto simp add: no_empty_channel_def unsubscribe_connection_def mutate_def Let_def
        split: option.splits if_splits)

lemma no_empty_subscribe_each:
  "no_empty_channel (mgr w) \<Longrightarrow> no_empty_channel (mgr (fst (subscribe_each x cs w)))"
proof (induction cs arbitrary: w)
  case Nil
  then show ?case by simp
next
  case (Cons c cs)
  obtain w' r where sc: "subscribe_connection x c w = (w', r)"
    by (cases "subscribe_connection x c w")
  from Cons.prems have ne: "no_empty_channel (mgr w')"
    using no_empty_subscribe_connection [of w x c] sc by simp
  show ?case
  proof (cases r)
    case (Inl e)
    with sc ne show ?thesis by simp
  next
    case (Inr v)
    with sc Cons.IH [OF ne] show ?thesis by simp
  qed
qed

lemma no_empty_subscribe:
  "no_empty_channel (mgr w) \<Longrightarrow> no_empty_channel (mgr (fst (subscribe now wfail ws cs w)))"
proof -
  assume ne: "no_empty_channel (mgr w)"
  show ?thesis
  proof (cases "find_connection_id (active_connections (mgr w)) ws")
    case None
    with ne show ?thesis by (simp add: subscribe_def)
  next
    case (Some c)
    obtain w' r where se: "subscribe_each c cs w = (w', r)"
      by (cases "subscribe_each c cs w")
    have "no_empty_channel (mgr w')"
      using no_empty_subscribe_each [OF ne, of c cs] se by simp
    with ne Some se show ?thesis
      by (cases r) (simp_all add: subscribe_def Let_def)
  qed
qed

lemma no_empty_connect:
  "no_empty_channel (mgr w) \<Longrightarrow> no_empty_channel (mgr (fst (connect cid now wfail ws ic w)))"
proof -
  assume ne: "no_empty_channel (mgr w)"
  let ?w1 = "(emit [Accept ws] w)\<lparr>mgr := (mgr (emit [Accept ws] w))
       \<lparr>active_connections := AList.update cid ws (active_connections (mgr (emit [Accept ws] w))),
        connection_metadata := (connection_metadata (mgr (emit [Accept ws] w)))(cid \<mapsto>
            \<lparr>connected_at = now, user_id = None, ip_address = client_host ws\<rparr>),
        connection_channels := (connection_channels (mgr (emit [Accept ws] w)))(cid \<mapsto> [])\<rparr>\<rparr>"
  have ne1: "no_empty_channel (mgr ?w1)"
    using ne by (simp add: no_empty_channel_def)
  show ?thesis
  proof (cases "ic \<noteq> None \<and> truthy ic")
    case False
    then show ?thesis using ne1
      by (auto simp add: connect_def Let_def split: option.splits)
  next
    case True
    then obtain ch where ic: "ic = Some ch" by auto
    obtain w' r where sc: "subscribe_connection cid ch ?w1 = (w', r)"
      by (cases "subscribe_connection cid ch ?w1")
    have "no_empty_channel (mgr w')"
      using no_empty_subscribe_connection [OF ne1, of cid ch] sc by simp
    then show ?thesis using True ic sc
      by (cases r) (simp_all add: connect_def Let_def)
  qed
qed

lemma no_empty_disconnect:
  "no_empty_channel (mgr w) \<Longrightarrow> no_empty_channel (mgr (disconnect ws w))"
  by (simp add: disconnect_def Let_def no_empty_remove split: option.splits)

lemma no_empty_broadcast:
  "no_empty_channel (mgr w) \<Longrightarrow>
   no_empty_channel (mgr (fst (broadcast_to_channel now wfail c msg ex w)))"
  by (cases "channel_subscriptions (mgr w) c")
     (simp_all add: broadcast_no_channel broadcast_mgr no_empty_fold_remove)

lemma no_empty_send:
  "no_empty_channel (mgr w) \<Longrightarrow>
   no_empty_channel (mgr (fst (send_to_connection now wfail x msg w)))"
  by (simp add: send_to_connection_def Let_def no_empty_remove split: option.splits)

lemma reachable_no_empty: "reachable w \<Longrightarrow> no_empty_channel (mgr w)"
proof (induction rule: reachable.induct)
  case r_init
  show ?case by (simp add: no_empty_channel_def init_world_def init_def)
next
  case (r_connect w cid now wfail ws ic)
  then show ?case by (simp add: no_empty_connect)
next
  case (r_disconnect w ws)
  then show ?case by (simp add: no_empty_disconnect)
next
  case (r_disconnect_by_id w x)
  then show ?case by (simp add: disconnect_by_id_def no_empty_remove)
next
  case (r_subscribe_connection w x c)
  then show ?case by (simp add: no_empty_subscribe_connection)
next
  case (r_unsubscribe_connection w x c)
  then show ?case by (simp add: no_empty_unsubscribe_connection)
next
  case (r_subscribe w now wfail ws cs)
  then show ?case by (simp add: no_empty_subscribe)
next
  case (r_broadcast w now wfail c msg ex)
  then show ?case by (simp add: no_empty_broadcast)
next
  case (r_send w now wfail x msg)
  then show ?case by (simp add: no_empty_send)
qed

lemma removeAll_only: "set s \<subseteq> {x} \<Longrightarrow> removeAll x s = []"
  by (induction s) auto

lemma unsubscribe_last:
  "channel_subscriptions (mgr w) c = Some s \<Longrightarrow> set s = {x} \<Longrightarrow>
   channel_subscriptions (mgr (fst (unsubscribe_connection x c w))) c = None"
  by (simp add: unsubscribe_connection_def mutate_def Let_def removeAll_only)

lemma evict_last:
  "channel_subscriptions (mgr w) c = Some s \<Longrightarrow> set s = {x} \<Longrightarrow>
   channel_subscriptions (mgr (disconnect_by_id x w)) c = None"
  by (simp add: disconnect_by_id_def subs_remove removeAll_only)

text \<open>
  C7. In every reachable state no channel of the subscription index has an empty
  subscriber set. From such a state, unsubscribing the only subscriber of a channel
  deletes the entry of the channel, and so does evicting it.
\<close>

theorem no_channel_without_subscriber:
  assumes "reachable w"
  shows "no_empty_channel (mgr w)
       \<and> (\<forall>x c s. channel_subscriptions (mgr w) c = Some s \<and> set s = {x} \<longrightarrow>
            channel_subscriptions (mgr (fst (unsubscribe_connection x c w))) c = None
            \<and> channel_subscriptions (mgr (disconnect_by_id x w)) c = None)"
proof (intro conjI allI impI)
  show "no_empty_channel (mgr w)"
    by (rule reachable_no_empty [OF assms])
next
  fix x c s
  assume "channel_subscriptions (mgr w) c = Some s \<and> set s = {x}"
  then show "channel_subscriptions (mgr (fst (unsubscribe_connection x c w))) c = None"
    by (simp add: unsubscribe_last)
next
  fix x c s
  assume "channel_subscriptions (mgr w) c = Some s \<and> set s = {x}"
  then show "channel_subscriptions (mgr (disconnect_by_id x w)) c = None"
    by (simp add: evict_last)
qed

theorem no_channel_without_subscriber_witness:
  "reachable one_subscriber
   \<and> channel_subscriptions (mgr one_subscriber) ''c'' = Some [''a''] \<and> set [''a''] = {''a''}
   \<and> channel_subscriptions (mgr one_subscriber) ''c'' \<noteq> Some []
   \<and> channel_subscriptions (mgr (fst (unsubscribe_connection ''a'' ''c'' one_subscriber))) ''c'' = None
   \<and> channel_subscriptions (mgr (disconnect_by_id ''a'' one_subscriber)) ''c'' = None"
proof -
  have r: "reachable one_subscriber"
    unfolding one_subscriber_def by (intro r_connect r_init)
  have s: "channel_subscriptions (mgr one_subscriber) ''c'' = Some [''a'']"
    by (simp add: one_subscriber_def connect_def subscribe_connection_def mutate_def emit_def
        init_world_def init_def Let_def never_fails_def)
  have t: "set [''a''] = {''a''}" by simp
  note T = no_channel_without_subscriber [OF r]
  from T have n: "channel_subscriptions (mgr one_subscriber) ''c'' \<noteq> Some []"
    unfolding no_empty_channel_def by simp
  from T s t
  have u: "channel_subscriptions (mgr (fst (unsubscribe_connection ''a'' ''c'' one_subscriber))) ''c'' = None
         \<and> channel_subscriptions (mgr (disconnect_by_id ''a'' one_subscriber)) ''c'' = None"
    by blast
  from r s t n u show ?thesis by simp
qed

subsection \<open>The two indices mirror each other while identities are known\<close>

text \<open>
  The mirror property, broken above by a subscription of an unknown identity, is kept by
  every operation as long as \<^verbatim>\<open>subscribe_connection\<close> is given an identity that has a
  channel set and \<^verbatim>\<open>connect\<close> is given a fresh one: the departure is confined to the
  unguarded lookup of line 142.
\<close>

lemma channels_of_remove:
  "channels_of (remove_from_manager y m) x = (if x = y then [] else channels_of m x)"
  by (simp add: channels_of_def chans_remove)

lemma consistent_remove: "consistent m \<Longrightarrow> consistent (remove_from_manager y m)"
  by (auto simp add: consistent_def subscribers_of_remove channels_of_remove)

lemma consistent_fold_remove: "consistent m \<Longrightarrow> consistent (fold remove_from_manager xs m)"
  by (induction xs arbitrary: m) (simp_all add: consistent_remove)

lemma rhc_remove: "registered_have_channels m \<Longrightarrow> registered_have_channels (remove_from_manager y m)"
  by (simp add: registered_have_channels_def active_remove chans_remove)

lemma rhc_fold_remove:
  "registered_have_channels m \<Longrightarrow> registered_have_channels (fold remove_from_manager xs m)"
  by (induction xs arbitrary: m) (simp_all add: rhc_remove)

lemma subs_subscribe:
  "channel_subscriptions (mgr (fst (subscribe_connection x c w)))
     = (channel_subscriptions (mgr w))(c \<mapsto> List.insert x (subscribers_of (mgr w) c))"
proof (cases "connection_channels (mgr w) x")
  case None
  then show ?thesis
    by (cases "channel_subscriptions (mgr w) c")
       (simp_all add: subscribe_connection_def Let_def mutate_def subscribers_of_def)
next
  case (Some cs)
  then show ?thesis
    by (cases "channel_subscriptions (mgr w) c")
       (simp_all add: subscribe_connection_def Let_def mutate_def subscribers_of_def)
qed

lemma chans_subscribe:
  "connection_channels (mgr w) x = Some cs \<Longrightarrow>
   connection_channels (mgr (fst (subscribe_connection x c w)))
     = (connection_channels (mgr w))(x \<mapsto> List.insert c cs)"
  by (simp add: subscribe_connection_def Let_def mutate_def)

lemma chans_subscribe_unknown:
  "connection_channels (mgr w) x = None \<Longrightarrow>
   connection_channels (mgr (fst (subscribe_connection x c w))) = connection_channels (mgr w)"
  by (simp add: subscribe_connection_def Let_def)

lemma subscribers_of_subscribe_list:
  "subscribers_of (mgr (fst (subscribe_connection x c w))) c' =
     (if c' = c then List.insert x (subscribers_of (mgr w) c) else subscribers_of (mgr w) c')"
  by (simp add: subscribers_of_def subs_subscribe)

lemma subscribers_of_subscribe:
  "set (subscribers_of (mgr (fst (subscribe_connection x c w))) c') =
     (if c' = c then insert x (set (subscribers_of (mgr w) c)) else set (subscribers_of (mgr w) c'))"
  by (simp add: subscribers_of_subscribe_list)

lemma channels_of_subscribe_list:
  "connection_channels (mgr w) x = Some cs \<Longrightarrow>
   channels_of (mgr (fst (subscribe_connection x c w))) x' =
     (if x' = x then List.insert c (channels_of (mgr w) x) else channels_of (mgr w) x')"
  by (simp add: channels_of_def chans_subscribe)

lemma channels_of_subscribe:
  "connection_channels (mgr w) x \<noteq> None \<Longrightarrow>
   set (channels_of (mgr (fst (subscribe_connection x c w))) x') =
     (if x' = x then insert c (set (channels_of (mgr w) x)) else set (channels_of (mgr w) x'))"
proof -
  assume "connection_channels (mgr w) x \<noteq> None"
  then obtain cs where "connection_channels (mgr w) x = Some cs" by auto
  then show ?thesis by (simp add: channels_of_subscribe_list)
qed

lemma consistent_subscribe_connection:
  "consistent (mgr w) \<Longrightarrow> connection_channels (mgr w) x \<noteq> None \<Longrightarrow>
   consistent (mgr (fst (subscribe_connection x c w)))"
  unfolding consistent_def
  by (auto simp add: subscribers_of_subscribe channels_of_subscribe)

lemma dom_channels_subscribe:
  "(connection_channels (mgr (fst (subscribe_connection x c w))) y = None)
     = (connection_channels (mgr w) y = None)"
  by (cases "connection_channels (mgr w) x") (simp_all add: chans_subscribe chans_subscribe_unknown)

lemma active_subscribe_connection:
  "active_connections (mgr (fst (subscribe_connection x c w))) = active_connections (mgr w)"
  by (cases "connection_channels (mgr w) x") (simp_all add: subscribe_connection_def Let_def)

lemma rhc_subscribe_connection:
  "registered_have_channels (mgr w) \<Longrightarrow>
   registered_have_channels (mgr (fst (subscribe_connection x c w)))"
  by (simp add: registered_have_channels_def dom_channels_subscribe active_subscribe_connection)


lemma subs_unsubscribe:
  "channel_subscriptions (mgr (fst (unsubscribe_connection x c w))) c' =
     (if c' = c
      then (case channel_subscriptions (mgr w) c of
              None \<Rightarrow> None
            | Some s \<Rightarrow> if removeAll x s = [] then None else Some (removeAll x s))
      else channel_subscriptions (mgr w) c')"
  by (cases "channel_subscriptions (mgr w) c")
     (simp_all add: unsubscribe_connection_def Let_def mutate_def)

lemma chans_unsubscribe:
  "connection_channels (mgr (fst (unsubscribe_connection x c w))) x' =
     (if x' = x then map_option (removeAll c) (connection_channels (mgr w) x)
      else connection_channels (mgr w) x')"
  by (cases "connection_channels (mgr w) x")
     (simp_all add: unsubscribe_connection_def Let_def mutate_def)

lemma active_unsubscribe:
  "active_connections (mgr (fst (unsubscribe_connection x c w))) = active_connections (mgr w)"
  by (simp add: unsubscribe_connection_def Let_def)

lemma subscribers_of_unsubscribe_list:
  "subscribers_of (mgr (fst (unsubscribe_connection x c w))) c' =
     (if c' = c then removeAll x (subscribers_of (mgr w) c) else subscribers_of (mgr w) c')"
  by (cases "channel_subscriptions (mgr w) c") (simp_all add: subscribers_of_def subs_unsubscribe)

lemma subscribers_of_unsubscribe:
  "set (subscribers_of (mgr (fst (unsubscribe_connection x c w))) c') =
     (if c' = c then set (subscribers_of (mgr w) c) - {x} else set (subscribers_of (mgr w) c'))"
  by (simp add: subscribers_of_unsubscribe_list)

lemma channels_of_unsubscribe_list:
  "channels_of (mgr (fst (unsubscribe_connection x c w))) x' =
     (if x' = x then removeAll c (channels_of (mgr w) x) else channels_of (mgr w) x')"
  by (cases "connection_channels (mgr w) x") (simp_all add: channels_of_def chans_unsubscribe)

lemma channels_of_unsubscribe:
  "set (channels_of (mgr (fst (unsubscribe_connection x c w))) x') =
     (if x' = x then set (channels_of (mgr w) x) - {c} else set (channels_of (mgr w) x'))"
  by (simp add: channels_of_unsubscribe_list)

lemma consistent_unsubscribe_connection:
  "consistent (mgr w) \<Longrightarrow> consistent (mgr (fst (unsubscribe_connection x c w)))"
  unfolding consistent_def
  by (auto simp add: subscribers_of_unsubscribe channels_of_unsubscribe)

lemma rhc_unsubscribe_connection:
  "registered_have_channels (mgr w) \<Longrightarrow>
   registered_have_channels (mgr (fst (unsubscribe_connection x c w)))"
  by (auto simp add: registered_have_channels_def chans_unsubscribe active_unsubscribe)


lemma find_connection_id_registered:
  "find_connection_id act ws = Some x \<Longrightarrow> map_of act x \<noteq> None"
  by (induction act) (auto split: if_splits)

lemma wf_subscribe_each:
  "consistent (mgr w) \<and> registered_have_channels (mgr w) \<Longrightarrow>
   connection_channels (mgr w) x \<noteq> None \<Longrightarrow>
   consistent (mgr (fst (subscribe_each x cs w)))
   \<and> registered_have_channels (mgr (fst (subscribe_each x cs w)))"
proof (induction cs arbitrary: w)
  case Nil
  then show ?case by simp
next
  case (Cons c cs)
  obtain w' r where sc: "subscribe_connection x c w = (w', r)"
    by (cases "subscribe_connection x c w")
  have w': "w' = fst (subscribe_connection x c w)" using sc by simp
  have inv: "consistent (mgr w') \<and> registered_have_channels (mgr w')"
    using Cons.prems by (simp add: w' consistent_subscribe_connection rhc_subscribe_connection)
  have known: "connection_channels (mgr w') x \<noteq> None"
    using Cons.prems(2) by (simp add: w' dom_channels_subscribe)
  show ?case
  proof (cases r)
    case (Inl e)
    with sc inv show ?thesis by simp
  next
    case (Inr v)
    with sc Cons.IH [OF inv known] show ?thesis by simp
  qed
qed

lemma wf_subscribe:
  assumes "consistent (mgr w) \<and> registered_have_channels (mgr w)"
  shows "consistent (mgr (fst (subscribe now wfail ws cs w)))
       \<and> registered_have_channels (mgr (fst (subscribe now wfail ws cs w)))"
proof (cases "find_connection_id (active_connections (mgr w)) ws")
  case None
  with assms show ?thesis by (simp add: subscribe_def)
next
  case (Some c)
  have known: "connection_channels (mgr w) c \<noteq> None"
    using find_connection_id_registered [OF Some] assms
    by (simp add: registered_have_channels_def)
  obtain w' r where se: "subscribe_each c cs w = (w', r)"
    by (cases "subscribe_each c cs w")
  have "consistent (mgr w') \<and> registered_have_channels (mgr w')"
    using wf_subscribe_each [OF assms known, of cs] se by simp
  with assms Some se show ?thesis
    by (cases r) (simp_all add: subscribe_def Let_def)
qed

lemma wf_connect:
  assumes "consistent (mgr w) \<and> registered_have_channels (mgr w)"
    and fresh: "connection_channels (mgr w) cid = None"
  shows "consistent (mgr (fst (connect cid now wfail ws ic w)))
       \<and> registered_have_channels (mgr (fst (connect cid now wfail ws ic w)))"
proof -
  let ?w1 = "(emit [Accept ws] w)\<lparr>mgr := (mgr (emit [Accept ws] w))
       \<lparr>active_connections := AList.update cid ws (active_connections (mgr (emit [Accept ws] w))),
        connection_metadata := (connection_metadata (mgr (emit [Accept ws] w)))(cid \<mapsto>
            \<lparr>connected_at = now, user_id = None, ip_address = client_host ws\<rparr>),
        connection_channels := (connection_channels (mgr (emit [Accept ws] w)))(cid \<mapsto> [])\<rparr>\<rparr>"
  have ch: "channels_of (mgr ?w1) x = channels_of (mgr w) x" for x
    using fresh by (simp add: channels_of_def)
  have su: "subscribers_of (mgr ?w1) c = subscribers_of (mgr w) c" for c
    by (simp add: subscribers_of_def)
  have c1: "consistent (mgr ?w1)"
    using assms(1) unfolding consistent_def by (simp only: ch su) simp
  have r1: "registered_have_channels (mgr ?w1)"
    using assms(1) by (simp add: registered_have_channels_def AList.update_conv')
  have k1: "connection_channels (mgr ?w1) cid \<noteq> None" by simp
  show ?thesis
  proof (cases "ic \<noteq> None \<and> truthy ic")
    case False
    then show ?thesis using c1 r1
      by (auto simp add: connect_def Let_def split: option.splits)
  next
    case True
    then obtain ch where ic: "ic = Some ch" by auto
    obtain w' r where sc: "subscribe_connection cid ch ?w1 = (w', r)"
      by (cases "subscribe_connection cid ch ?w1")
    have w': "w' = fst (subscribe_connection cid ch ?w1)" using sc by simp
    have "consistent (mgr w') \<and> registered_have_channels (mgr w')"
      unfolding w'
      using consistent_subscribe_connection [OF c1 k1] rhc_subscribe_connection [OF r1] by blast
    then show ?thesis using True ic sc
      by (cases r) (simp_all add: connect_def Let_def)
  qed
qed

lemma wf_disconnect:
  "consistent (mgr w) \<and> registered_have_channels (mgr w) \<Longrightarrow>
   consistent (mgr (disconnect ws w)) \<and> registered_have_channels (mgr (disconnect ws w))"
  by (simp add: disconnect_def Let_def consistent_remove rhc_remove split: option.splits)

lemma wf_broadcast:
  "consistent (mgr w) \<and> registered_have_channels (mgr w) \<Longrightarrow>
   consistent (mgr (fst (broadcast_to_channel now wfail c msg ex w)))
   \<and> registered_have_channels (mgr (fst (broadcast_to_channel now wfail c msg ex w)))"
  by (cases "channel_subscriptions (mgr w) c")
     (simp_all add: broadcast_no_channel broadcast_mgr consistent_fold_remove rhc_fold_remove)

lemma wf_send:
  "consistent (mgr w) \<and> registered_have_channels (mgr w) \<Longrightarrow>
   consistent (mgr (fst (send_to_connection now wfail x msg w)))
   \<and> registered_have_channels (mgr (fst (send_to_connection now wfail x msg w)))"
  by (simp add: send_to_connection_def Let_def consistent_remove rhc_remove split: option.splits)

lemma reachable_known_consistent:
  "reachable_known w \<Longrightarrow> consistent (mgr w) \<and> registered_have_channels (mgr w)"
proof (induction rule: reachable_known.induct)
  case k_init
  show ?case
    by (simp add: consistent_def registered_have_channels_def subscribers_of_def channels_of_def
          init_world_def init_def)
next
  case (k_connect w cid now wfail ws ic)
  then show ?case by (simp add: wf_connect)
next
  case (k_disconnect w ws)
  then show ?case by (simp add: wf_disconnect)
next
  case (k_disconnect_by_id w x)
  then show ?case by (simp add: disconnect_by_id_def consistent_remove rhc_remove)
next
  case (k_subscribe_connection w x c)
  then show ?case by (simp add: consistent_subscribe_connection rhc_subscribe_connection)
next
  case (k_unsubscribe_connection w x c)
  then show ?case by (simp add: consistent_unsubscribe_connection rhc_unsubscribe_connection)
next
  case (k_subscribe w now wfail ws cs)
  then show ?case by (simp add: wf_subscribe)
next
  case (k_broadcast w now wfail c msg ex)
  then show ?case by (simp add: wf_broadcast)
next
  case (k_send w now wfail x msg)
  then show ?case by (simp add: wf_send)
qed

subsection \<open>Inbound messages that are not envelopes\<close>

text \<open>
  C4, as stated, fails. The claim: a connection is never evicted for an inbound message
  that does not parse. On \<^verbatim>\<open>/ws\<close>, connection \<open>a\<close> subscribes to \<open>c\<close> and is registered
  with that subscription; when its next frame is not JSON, the handler ends with \<open>a\<close>
  out of the registry and channel \<open>c\<close> deleted.
\<close>

theorem malformed_message_counterexample:
  "map_of (active_connections (mgr (fst (websocket_endpoint ''a'' ''t0'' never_fails ws_a
       [Object (SubscribeReq (Listed [Name ''c'']))] init_world)))) ''a'' = Some ws_a
   \<and> channel_subscriptions (mgr (fst (websocket_endpoint ''a'' ''t0'' never_fails ws_a
       [Object (SubscribeReq (Listed [Name ''c'']))] init_world))) ''c'' = Some [''a'']
   \<and> map_of (active_connections (mgr (fst (websocket_endpoint ''a'' ''t0'' never_fails ws_a
       [Object (SubscribeReq (Listed [Name ''c''])), NotJson] init_world)))) ''a'' = None
   \<and> channel_subscriptions (mgr (fst (websocket_endpoint ''a'' ''t0'' never_fails ws_a
       [Object (SubscribeReq (Listed [Name ''c''])), NotJson] init_world))) ''c'' = None
   \<and> snd (websocket_endpoint ''a'' ''t0'' never_fails ws_a
       [Object (SubscribeReq (Listed [Name ''c''])), NotJson] init_world) = Finished"
  by (simp add: websocket_endpoint_def connect_def websocket_endpoint_step_def subscribe_untyped_def
        subscribe_connection_def mutate_def disconnect_def emit_def init_world_def init_def
        Let_def never_fails_def active_remove subs_remove)

text \<open>
  On a list of names the call made by the handler is the typed \<^verbatim>\<open>subscribe\<close>; on a
  malformed field it raises, with the registry as it was.
\<close>

lemma subscribe_elements_names:
  "subscribe_elements c (map Name cs) w = subscribe_each c cs w"
  by (induction cs arbitrary: w) (auto split: prod.splits sum.splits)

lemma subscribe_untyped_names:
  "subscribe_untyped now wfail ws (Listed (map Name cs)) w = subscribe now wfail ws cs w"
  by (simp add: subscribe_untyped_def subscribe_def subscribe_elements_names Let_def comp_def
        split: option.splits)

lemma trace_subscribe_connection:
  "\<exists>evs. trace (fst (subscribe_connection x c w)) = trace w @ evs"
  by (cases "connection_channels (mgr w) x") (simp_all add: subscribe_connection_def Let_def)

lemma subscribe_elements_frame:
  "active_connections (mgr (fst (subscribe_elements c es w))) = active_connections (mgr w)
   \<and> (\<exists>evs. trace (fst (subscribe_elements c es w)) = trace w @ evs)
   \<and> (list_ex is_nested es \<longrightarrow> (\<exists>e. snd (subscribe_elements c es w) = Inl e))"
proof (induction es arbitrary: w)
  case Nil
  show ?case by simp
next
  case (Cons el es)
  show ?case
  proof (cases el)
    case (Name channel)
    obtain w' r where sc: "subscribe_connection c channel w = (w', r)"
      by (cases "subscribe_connection c channel w")
    have a: "active_connections (mgr w') = active_connections (mgr w)"
      using active_subscribe_connection [of c channel w] sc by simp
    obtain evs where t: "trace w' = trace w @ evs"
      using trace_subscribe_connection [of c channel w] sc by auto
    show ?thesis
    proof (cases r)
      case (Inl e)
      with Name sc a t show ?thesis by simp
    next
      case (Inr v)
      with Name sc a t Cons.IH [of w'] show ?thesis by auto
    qed
  next
    case (NestedList vs)
    then show ?thesis by simp
  next
    case (NestedObject d)
    then show ?thesis by simp
  qed
qed

lemma subscribe_untyped_malformed:
  assumes "find_connection_id (active_connections (mgr w)) ws = Some x" and "x \<noteq> []"
    and "malformed_field f"
  shows "\<exists>w' e evs. subscribe_untyped now wfail ws f w = (w', Inl e)
           \<and> active_connections (mgr w') = active_connections (mgr w)
           \<and> trace w' = trace w @ evs"
proof (cases "elements_of f")
  case (Inl e)
  with assms show ?thesis by (simp add: subscribe_untyped_def)
next
  case (Inr es)
  with assms(3) have n: "list_ex is_nested es" by (cases f) auto
  obtain w' r where se: "subscribe_elements x es w = (w', r)"
    by (cases "subscribe_elements x es w")
  from subscribe_elements_frame [of x es w] n se
  obtain e evs where "r = Inl e" "active_connections (mgr w') = active_connections (mgr w)"
      "trace w' = trace w @ evs"
    by auto
  with assms(1,2) Inr se show ?thesis by (simp add: subscribe_untyped_def)
qed

lemma disconnect_resolved:
  "find_connection_id (active_connections (mgr w)) ws = Some x \<Longrightarrow> x \<noteq> [] \<Longrightarrow>
   disconnect ws w = remove_connection x w"
  by (simp add: disconnect_def)

lemma on_exception_evicts:
  assumes "find_connection_id (active_connections (mgr w')) ws = Some x" and "x \<noteq> []"
    and "trace w' = trace w @ evs"
  shows "absent x (mgr (disconnect ws (emit [Log Error ''WebSocket error'' []] w')))
       \<and> Log Error ''WebSocket error'' []
            \<in> set (new_events w (disconnect ws (emit [Log Error ''WebSocket error'' []] w')))"
proof -
  have f: "find_connection_id (active_connections (mgr (emit [Log Error ''WebSocket error'' []] w'))) ws = Some x"
    using assms(1) by simp
  show ?thesis
    using assms(3) by (simp add: disconnect_resolved [OF f assms(2)] absent_remove new_events_def)
qed

text \<open>
  C4, amended. On \<^verbatim>\<open>/ws\<close>, an inbound frame on which the body of the loop raises (text
  that is not JSON, JSON that is not an object, a subscribe request whose \<^verbatim>\<open>channels\<close>
  cannot be iterated or lists a value that cannot be hashed) is logged as an error and
  ends the receive loop with the connection evicted: its identity has no handle, no
  metadata, no channel set and is in no subscriber set. An object whose type is neither
  \<open>subscribe\<close> nor \<open>ping\<close> is dropped without a log record, and the connection stays
  registered with its subscriptions.
\<close>

theorem malformed_message_handling:
  assumes "find_connection_id (active_connections (mgr w)) ws = Some x" and "x \<noteq> []"
  shows "(malformed inb \<longrightarrow>
            snd (websocket_endpoint_step now wfail ws inb w) = Finished
            \<and> absent x (mgr (fst (websocket_endpoint_step now wfail ws inb w)))
            \<and> Log Error ''WebSocket error'' []
                 \<in> set (new_events w (fst (websocket_endpoint_step now wfail ws inb w))))
       \<and> websocket_endpoint_step now wfail ws NotJson w
           = (remove_connection x (emit [Log Error ''WebSocket error'' []] w), Finished)
       \<and> websocket_endpoint_step now wfail ws NotObject w
           = (remove_connection x (emit [Log Error ''WebSocket error'' []] w), Finished)
       \<and> websocket_endpoint_step now wfail ws (Object (SubscribeReq (NotIterable v))) w
           = (remove_connection x (emit [Log Error ''WebSocket error'' []] w), Finished)
       \<and> websocket_endpoint_step now wfail ws (Object OtherReq) w = (w, Running)"
proof -
  have f: "find_connection_id (active_connections (mgr (emit [Log Error ''WebSocket error'' []] w))) ws = Some x"
    using assms(1) by simp
  note d = disconnect_resolved [OF f assms(2)]
  have here: "trace w = trace w @ []" by simp
  note ev = on_exception_evicts [OF assms(1) assms(2) here]
  have a: "websocket_endpoint_step now wfail ws NotJson w
           = (remove_connection x (emit [Log Error ''WebSocket error'' []] w), Finished)"
    by (simp add: websocket_endpoint_step_def d)
  have b: "websocket_endpoint_step now wfail ws NotObject w
           = (remove_connection x (emit [Log Error ''WebSocket error'' []] w), Finished)"
    by (simp add: websocket_endpoint_step_def d)
  have c: "websocket_endpoint_step now wfail ws (Object (SubscribeReq (NotIterable v))) w
           = (remove_connection x (emit [Log Error ''WebSocket error'' []] w), Finished)"
    using assms by (simp add: websocket_endpoint_step_def subscribe_untyped_def d)
  have o: "websocket_endpoint_step now wfail ws (Object OtherReq) w = (w, Running)"
    by (simp add: websocket_endpoint_step_def)
  have m: "snd (websocket_endpoint_step now wfail ws inb w) = Finished
            \<and> absent x (mgr (fst (websocket_endpoint_step now wfail ws inb w)))
            \<and> Log Error ''WebSocket error'' []
                 \<in> set (new_events w (fst (websocket_endpoint_step now wfail ws inb w)))"
    if mal: "malformed inb"
  proof (cases inb)
    case Disconnected
    with mal show ?thesis by simp
  next
    case NotJson
    with ev show ?thesis by (simp add: websocket_endpoint_step_def)
  next
    case NotObject
    with ev show ?thesis by (simp add: websocket_endpoint_step_def)
  next
    case (Object req)
    show ?thesis
    proof (cases req)
      case (SubscribeReq fld)
      with Object mal have mf: "malformed_field fld" by simp
      from subscribe_untyped_malformed [OF assms mf, of now wfail]
      obtain w' e evs where su: "subscribe_untyped now wfail ws fld w = (w', Inl e)"
        and act: "active_connections (mgr w') = active_connections (mgr w)"
        and tr: "trace w' = trace w @ evs"
        by blast
      have f': "find_connection_id (active_connections (mgr w')) ws = Some x"
        using assms(1) act by simp
      from on_exception_evicts [OF f' assms(2) tr] Object SubscribeReq su
      show ?thesis by (simp add: websocket_endpoint_step_def)
    next
      case (PingReq ts)
      with Object mal show ?thesis by simp
    next
      case OtherReq
      with Object mal show ?thesis by simp
    qed
  qed
  from m a b c o show ?thesis by blast
qed

theorem malformed_message_handling_witness:
  "find_connection_id (active_connections (mgr one_subscriber)) ws_a = Some ''a'' \<and> ''a'' \<noteq> []
   \<and> malformed nested_request
   \<and> snd (websocket_endpoint_step ''t1'' never_fails ws_a nested_request one_subscriber) = Finished
   \<and> absent ''a'' (mgr (fst (websocket_endpoint_step ''t1'' never_fails ws_a nested_request one_subscriber)))
   \<and> snd (websocket_endpoint_step ''t1'' never_fails ws_a NotJson one_subscriber) = Finished
   \<and> websocket_endpoint_step ''t1'' never_fails ws_a (Object OtherReq) one_subscriber
        = (one_subscriber, Running)"
proof -
  have f: "find_connection_id (active_connections (mgr one_subscriber)) ws_a = Some ''a''"
    by (simp add: one_subscriber_mgr)
  have n: "''a'' \<noteq> []" by simp
  have m: "malformed nested_request" by (simp add: nested_request_def)
  note T = malformed_message_handling [OF f n, where now = "''t1''" and wfail = never_fails
      and inb = nested_request and v = JNull]
  from T m have s: "snd (websocket_endpoint_step ''t1'' never_fails ws_a nested_request one_subscriber) = Finished"
    by blast
  from T m have a: "absent ''a'' (mgr (fst (websocket_endpoint_step ''t1'' never_fails ws_a nested_request one_subscriber)))"
    by blast
  from T have j: "snd (websocket_endpoint_step ''t1'' never_fails ws_a NotJson one_subscriber) = Finished"
    by simp
  from T have o: "websocket_endpoint_step ''t1'' never_fails ws_a (Object OtherReq) one_subscriber
        = (one_subscriber, Running)"
    by blast
  from f n m s a j o show ?thesis by blast
qed

end
